theory Spec2Isabelle
  imports Main
begin

text \<open>
  The SLA and escalation core of the help-desk server, function by function: the ticket
  model (\<open>models/Ticket.js\<close>), the ticket routes, the notification service, the SLA
  service and the workflow service. The document store, the clock and the console are
  explicit: every function takes the time it reads as \<open>now\<close> and the store it works
  on, and returns the store it leaves.
\<close>

section \<open>Data model\<close>

text \<open>
  Times are JavaScript epoch milliseconds (\<open>Date.getTime()\<close>), modelled as \<open>int\<close>.
  Status, priority and notification type are the strings the source compares with
  \<open>===\<close>. Object ids are natural numbers. A nullable field is an \<open>option\<close>.
\<close>

type_synonym time = int
type_synonym objectId = nat

definition HOUR :: int where
  "HOUR = 60 * 60 * 1000"


text \<open>The \<open>sla\<close> sub-document of \<open>models/Ticket.js\<close> (times in hours).\<close>

record sla =
  responseTime :: int
  resolutionTime :: int
  firstResponseAt :: "time option"
  resolvedAt :: "time option"
  dueDate :: time

record internalNote =
  noteText :: string
  addedBy :: "objectId option"
  addedAt :: time

record ticket =
  tid :: objectId
  title :: string
  description :: string
  status :: string
  priority :: string
  category :: string
  createdBy :: objectId
  assignedTo :: "objectId option"
  assignedAt :: "time option"
  sla :: sla
  version :: int
  tags :: "string list"
  internalNotes :: "internalNote list"
  createdAt :: time
  updatedAt :: time

section \<open>Derived SLA fields (virtuals of \<open>models/Ticket.js\<close>)\<close>

text \<open>
  \<open>slaStatus\<close>: the getter reads the clock once (\<open>now\<close>); \<open>firstResponse &&\<close> is the
  null test of a date.
\<close>

definition slaStatus :: "time \<Rightarrow> ticket \<Rightarrow> string" where
  "slaStatus now t =
     (if status t = ''resolved'' \<or> status t = ''closed'' then ''completed''
      else if (case firstResponseAt (sla t) of
                 None \<Rightarrow> False
               | Some fr \<Rightarrow> now > fr + responseTime (sla t) * 60 * 60 * 1000)
           then ''response_breach''
      else if now > dueDate (sla t) then ''resolution_breach''
      else if now > dueDate (sla t) - 24 * 60 * 60 * 1000 then ''warning''
      else ''on_time'')"

text \<open>\<open>Math.ceil\<close> of a quotient of integers.\<close>

definition ceil_div :: "int \<Rightarrow> int \<Rightarrow> int" where
  "ceil_div a b = - ((- a) div b)"

definition timeRemaining :: "time \<Rightarrow> ticket \<Rightarrow> int option" where
  "timeRemaining now t =
     (if status t = ''resolved'' \<or> status t = ''closed'' then None
      else let remaining = dueDate (sla t) - now
           in Some (if remaining > 0 then ceil_div remaining (1000 * 60 * 60) else 0))"

subsection \<open>The classifier as the specification words it\<close>

text \<open>
  The specification lists five rules in priority order over
  (now, status, dueDate, firstResponseAt, responseBudget); the first rule whose guard
  holds gives the label.
\<close>

fun first_match :: "(bool \<times> string) list \<Rightarrow> string \<Rightarrow> string" where
  "first_match [] d = d"
| "first_match ((g, l) # rs) d = (if g then l else first_match rs d)"

definition spec_slaStatus :: "time \<Rightarrow> string \<Rightarrow> time \<Rightarrow> time option \<Rightarrow> int \<Rightarrow> string" where
  "spec_slaStatus now st due fr budget =
     first_match
       [ (st \<in> {''resolved'', ''closed''}, ''completed''),
         (fr \<noteq> None \<and> now > the fr + budget * HOUR, ''response_breach''),
         (now > due, ''resolution_breach''),
         (now > due - 24 * HOUR, ''warning'') ]
       ''on_time''"


section \<open>The store, errors and effects\<close>

text \<open>
  The collections of the document store, and the console, are explicit state. A function
  that can throw returns \<open>Inl\<close> of the error together with the state it had reached: the
  writes made before the throw stay.
\<close>

record user =
  uid :: objectId
  role :: string
  isActive :: bool
  specializations :: "string list"

text \<open>Fields of \<open>models/Notification.js\<close> that the modelled code reads or writes.\<close>

record notification =
  n_user :: objectId
  n_type :: string
  n_title :: string
  n_message :: string
  n_ticket :: "objectId option"
  n_priority :: string
  n_createdAt :: time

record world =
  tickets :: "ticket list"
  notifications :: "notification list"
  users :: "user list"
  console :: "string list"

datatype error = ValidationError | TypeError

text \<open>\<open>await f; g\<close>: run \<open>g\<close> on the result of \<open>f\<close> unless \<open>f\<close> threw.\<close>

definition and_then ::
  "('s \<Rightarrow> (error + 'a) \<times> 's) \<Rightarrow> ('a \<Rightarrow> 's \<Rightarrow> (error + 'b) \<times> 's) \<Rightarrow> 's \<Rightarrow> (error + 'b) \<times> 's" where
  "and_then f g s = (case f s of (Inl e, s') \<Rightarrow> (Inl e, s') | (Inr a, s') \<Rightarrow> g a s')"

text \<open>\<open>for (const x of xs) { await f(x) }\<close>: a throw leaves the loop.\<close>

fun for_of :: "('a \<Rightarrow> 's \<Rightarrow> (error + unit) \<times> 's) \<Rightarrow> 'a list \<Rightarrow> 's \<Rightarrow> (error + unit) \<times> 's" where
  "for_of f [] s = (Inr (), s)"
| "for_of f (x # xs) s =
     (case f x s of (Inl e, s') \<Rightarrow> (Inl e, s') | (Inr _, s') \<Rightarrow> for_of f xs s')"

definition log_line :: "string \<Rightarrow> world \<Rightarrow> world" where
  "log_line l w = w\<lparr>console := console w @ [l]\<rparr>"

definition statuses :: "string list" where
  "statuses = [''open'', ''in_progress'', ''resolved'', ''closed'', ''cancelled'']"

definition priorities :: "string list" where
  "priorities = [''low'', ''medium'', ''high'', ''urgent'']"

definition notification_types :: "string list" where
  "notification_types =
     [''ticket_created'', ''ticket_updated'', ''ticket_assigned'', ''ticket_escalated'',
      ''comment_added'', ''sla_breach'', ''sla_warning'', ''ticket_resolved'']"

subsection \<open>\<open>notificationService.js\<close>\<close>

text \<open>The validators of the notification schema: enum, required, maxlength.\<close>

definition valid_notification :: "notification \<Rightarrow> bool" where
  "valid_notification n =
     (n_type n \<in> set notification_types
      \<and> n_title n \<noteq> [] \<and> length (n_title n) \<le> 200
      \<and> n_message n \<noteq> [] \<and> length (n_message n) \<le> 500
      \<and> n_priority n \<in> set priorities)"

text \<open>
  \<open>createNotification\<close>: \<open>notification.save()\<close> rejects an invalid document before
  writing it; \<open>populate('user')\<close> leaves \<open>null\<close> for a user that does not exist, and
  reading \<open>notification.user.preferences\<close> then throws a TypeError, after the write.
  \<open>sendEmailNotification\<close> catches its own errors and writes only the e-mail flags, which
  are not modelled. \<open>options.priority || 'medium'\<close> is the \<open>option\<close> default.
\<close>

definition createNotification ::
  "time \<Rightarrow> objectId \<Rightarrow> string \<Rightarrow> string \<Rightarrow> string \<Rightarrow> objectId option \<Rightarrow> string option
     \<Rightarrow> world \<Rightarrow> (error + notification) \<times> world" where
  "createNotification now userId type ttl message ticketId prio w =
     (let n = \<lparr> n_user = userId, n_type = type, n_title = ttl, n_message = message,
                 n_ticket = ticketId,
                 n_priority = (case prio of None \<Rightarrow> ''medium'' | Some p \<Rightarrow> p),
                 n_createdAt = now \<rparr>
      in if \<not> valid_notification n then (Inl ValidationError, w)
         else let w' = w\<lparr>notifications := notifications w @ [n]\<rparr>
              in if find (\<lambda>u. uid u = userId) (users w') = None then (Inl TypeError, w')
                 else (Inr n, w'))"

definition discard :: "('s \<Rightarrow> (error + 'a) \<times> 's) \<Rightarrow> 's \<Rightarrow> (error + unit) \<times> 's" where
  "discard f s = (case f s of (Inl e, s') \<Rightarrow> (Inl e, s') | (Inr _, s') \<Rightarrow> (Inr (), s'))"

text \<open>
  \<open>getNotifications(userId, {unreadOnly: false, limit})\<close> on page 1: the user's
  notifications, newest first, at most \<open>limit\<close> of them. Notifications written within
  one call carry the same \<open>now\<close> here; among them the one written last is the newest, as
  it is on the real clock.
\<close>

definition getNotifications :: "objectId \<Rightarrow> nat \<Rightarrow> world \<Rightarrow> notification list" where
  "getNotifications userId limit w =
     take limit (sort_key (\<lambda>n. - n_createdAt n)
                   (rev (filter (\<lambda>n. n_user n = userId) (notifications w))))"

definition find_admins :: "world \<Rightarrow> user list" where
  "find_admins w = filter (\<lambda>u. role u = ''admin'' \<and> isActive u) (users w)"

definition watchers_of :: "ticket \<Rightarrow> objectId list" where
  "watchers_of t = createdBy t # (case assignedTo t of None \<Rightarrow> [] | Some a \<Rightarrow> [a])"

definition notifySLAWarning :: "time \<Rightarrow> ticket \<Rightarrow> world \<Rightarrow> (error + unit) \<times> world" where
  "notifySLAWarning now t w =
     for_of (\<lambda>watcherId. discard (createNotification now watcherId ''sla_warning'' ''SLA Warning''
                (''Ticket \"'' @ title t @ ''\" is approaching its SLA deadline.'')
                (Some (tid t)) (Some ''high'')))
       (watchers_of t) w"

text \<open>
  \<open>[...new Set(watchers)]\<close>: the watchers are ObjectId objects, which a \<open>Set\<close>
  compares by reference. Each one comes from its own document field, so none is removed:
  a creator or assignee who is also an admin is notified twice.
\<close>

definition notifySLABreach :: "time \<Rightarrow> ticket \<Rightarrow> world \<Rightarrow> (error + unit) \<times> world" where
  "notifySLABreach now t w =
     (let watchers = watchers_of t @ map uid (find_admins w);
          uniqueWatchers = watchers
      in for_of (\<lambda>watcherId. discard (createNotification now watcherId ''sla_breach''
                   ''SLA Breach Alert''
                   (''Ticket \"'' @ title t @ ''\" has exceeded its SLA deadline.'')
                   (Some (tid t)) (Some ''urgent'')))
           uniqueWatchers w)"

definition notifyTicketAssigned ::
  "time \<Rightarrow> ticket \<Rightarrow> objectId \<Rightarrow> world \<Rightarrow> (error + unit) \<times> world" where
  "notifyTicketAssigned now t assignee w =
     discard (createNotification now assignee ''ticket_assigned'' ''Ticket Assigned''
                (''You have been assigned to ticket \"'' @ title t @ ''\".'')
                (Some (tid t)) (Some ''high'')) w"

definition notifyTicketCreated :: "time \<Rightarrow> ticket \<Rightarrow> world \<Rightarrow> (error + unit) \<times> world" where
  "notifyTicketCreated now t w =
     and_then
       (discard (createNotification now (createdBy t) ''ticket_created'' ''Ticket Created''
                   (''Your ticket \"'' @ title t @ ''\" has been created successfully.'')
                   (Some (tid t)) (Some ''medium'')))
       (\<lambda>_ w1. for_of (\<lambda>agent. discard (createNotification now (uid agent) ''ticket_created''
                           ''New Ticket Created''
                           (''A new ticket \"'' @ title t @ ''\" has been created and needs attention.'')
                           (Some (tid t)) (Some ''high'')))
                   (filter (\<lambda>u. role u = ''agent'' \<and> isActive u) (users w1)) w1)
       w"

subsection \<open>Saving a ticket document\<close>

text \<open>
  \<open>ticket.save()\<close>. A document that is not in the collection is new: it is inserted, the
  pre-save hook leaves \<open>version\<close> alone, and the timestamps are set. For a stored
  document, \<open>isModified()\<close> is a difference from the stored one (the code is run one
  call at a time, so the document a caller holds is the stored one plus its own
  assignments); an unmodified document is not written. Otherwise the validators of the
  modified paths run (the modelled code assigns \<open>status\<close>, \<open>priority\<close> and \<open>tags\<close>,
  whose validators can fail), the hook adds one to \<open>version\<close>, and \<open>timestamps: true\<close>
  sets \<open>updatedAt\<close>.
\<close>

definition find_ticket :: "objectId \<Rightarrow> world \<Rightarrow> ticket option" where
  "find_ticket i w = find (\<lambda>x. tid x = i) (tickets w)"

definition validate_modified :: "ticket \<Rightarrow> ticket \<Rightarrow> bool" where
  "validate_modified old doc =
     ((status doc = status old \<or> status doc \<in> set statuses)
      \<and> (priority doc = priority old \<or> priority doc \<in> set priorities)
      \<and> (tags doc = tags old \<or> list_all (\<lambda>g. length g \<le> 20) (tags doc)))"

definition pre_save :: "bool \<Rightarrow> bool \<Rightarrow> ticket \<Rightarrow> ticket" where
  "pre_save isModified isNew doc =
     (if isModified \<and> \<not> isNew then doc\<lparr>version := version doc + 1\<rparr> else doc)"

definition replace_ticket :: "ticket \<Rightarrow> ticket list \<Rightarrow> ticket list" where
  "replace_ticket d ts = map (\<lambda>x. if tid x = tid d then d else x) ts"

definition save :: "time \<Rightarrow> ticket \<Rightarrow> world \<Rightarrow> (error + ticket) \<times> world" where
  "save now doc w =
     (case find_ticket (tid doc) w of
        None \<Rightarrow>
          (let d = (pre_save True True doc)\<lparr>createdAt := now, updatedAt := now\<rparr>
           in (Inr d, w\<lparr>tickets := tickets w @ [d]\<rparr>))
      | Some old \<Rightarrow>
          if doc = old then (Inr doc, w)
          else if \<not> validate_modified old doc then (Inl ValidationError, w)
          else (let d = (pre_save True False doc)\<lparr>updatedAt := now\<rparr>
                in (Inr d, w\<lparr>tickets := replace_ticket d (tickets w)\<rparr>)))"

section \<open>The SLA service (\<open>SLAService\<close>)\<close>

text \<open>
  Each entry point reads the clock once, as \<open>now\<close>; the calls it makes are taken to
  happen at that same instant.
\<close>

definition escalation_note :: "time \<Rightarrow> internalNote" where
  "escalation_note now =
     \<lparr> noteText = ''Ticket escalated due to SLA breach or inactivity. Priority updated to urgent.'',
       addedBy = None, addedAt = now \<rparr>"

definition escalateTicket_try :: "time \<Rightarrow> ticket \<Rightarrow> world \<Rightarrow> (error + unit) \<times> world" where
  "escalateTicket_try now t w =
     and_then
       (\<lambda>w0. if priority t \<noteq> ''urgent'' then save now (t\<lparr>priority := ''urgent''\<rparr>) w0
              else (Inr t, w0))
       (\<lambda>t1. and_then
          (save now (t1\<lparr>internalNotes := internalNotes t1 @ [escalation_note now]\<rparr>))
          (\<lambda>t2 w2. and_then
             (for_of (\<lambda>admin. discard (createNotification now (uid admin) ''ticket_escalated''
                        ''Ticket Escalated''
                        (''Ticket \"'' @ title t2 @ ''\" has been escalated due to SLA breach or inactivity.'')
                        (Some (tid t2)) (Some ''urgent'')))
                (find_admins w2))
             (\<lambda>_ w3. (Inr (), log_line ''Ticket escalated successfully'' w3))
             w2))
       w"

definition escalateTicket :: "time \<Rightarrow> ticket \<Rightarrow> world \<Rightarrow> (error + unit) \<times> world" where
  "escalateTicket now t w =
     (case escalateTicket_try now t w of
        (Inl e, w') \<Rightarrow> (Inr (), log_line ''Error escalating ticket:'' w')
      | (Inr u, w') \<Rightarrow> (Inr u, w'))"

definition handleSLAWarning :: "time \<Rightarrow> ticket \<Rightarrow> world \<Rightarrow> (error + unit) \<times> world" where
  "handleSLAWarning now t w =
     (let lastWarning = getNotifications (createdBy t) 1 w;
          hasRecentWarning =
            list_ex (\<lambda>notif. n_type notif = ''sla_warning''
                        \<and> n_ticket notif = Some (tid t)
                        \<and> n_createdAt notif > now - 60 * 60 * 1000) lastWarning
      in if \<not> hasRecentWarning then notifySLAWarning now t w else (Inr (), w))"

definition handleSLABreach :: "time \<Rightarrow> ticket \<Rightarrow> world \<Rightarrow> (error + unit) \<times> world" where
  "handleSLABreach now t w =
     (let lastBreach = getNotifications (createdBy t) 1 w;
          hasRecentBreach =
            list_ex (\<lambda>notif. n_type notif = ''sla_breach''
                        \<and> n_ticket notif = Some (tid t)
                        \<and> n_createdAt notif > now - 2 * 60 * 60 * 1000) lastBreach
      in if \<not> hasRecentBreach
         then and_then (notifySLABreach now t) (\<lambda>_. escalateTicket now t) w
         else (Inr (), w))"

definition warning_query :: "time \<Rightarrow> ticket \<Rightarrow> bool" where
  "warning_query now t =
     (status t \<in> set [''open'', ''in_progress'']
      \<and> dueDate (sla t) \<ge> now + 60 * 60 * 1000
      \<and> dueDate (sla t) \<le> now + 2 * 60 * 60 * 1000)"

definition breach_query :: "time \<Rightarrow> ticket \<Rightarrow> bool" where
  "breach_query now t =
     (status t \<in> set [''open'', ''in_progress''] \<and> dueDate (sla t) < now)"

definition checkSLAStatus_try :: "time \<Rightarrow> world \<Rightarrow> (error + unit) \<times> world" where
  "checkSLAStatus_try now w =
     and_then
       (\<lambda>w0. for_of (handleSLAWarning now) (filter (warning_query now) (tickets w0)) w0)
       (\<lambda>_ w1. for_of (handleSLABreach now) (filter (breach_query now) (tickets w1)) w1)
       w"

definition checkSLAStatus :: "time \<Rightarrow> world \<Rightarrow> world" where
  "checkSLAStatus now w =
     (case checkSLAStatus_try now w of
        (Inl e, w') \<Rightarrow> log_line ''Error checking SLA status:'' w'
      | (Inr _, w') \<Rightarrow> w')"

definition unassigned_query :: "time \<Rightarrow> ticket \<Rightarrow> bool" where
  "unassigned_query now t =
     (status t = ''open'' \<and> assignedTo t = None
      \<and> createdAt t < now - 24 * 60 * 60 * 1000)"

definition stale_high_priority_query :: "time \<Rightarrow> ticket \<Rightarrow> bool" where
  "stale_high_priority_query now t =
     (status t \<in> set [''open'', ''in_progress'']
      \<and> priority t \<in> set [''high'', ''urgent'']
      \<and> updatedAt t < now - 4 * 60 * 60 * 1000)"

definition checkEscalations_try :: "time \<Rightarrow> world \<Rightarrow> (error + unit) \<times> world" where
  "checkEscalations_try now w =
     and_then
       (\<lambda>w0. for_of (escalateTicket now) (filter (unassigned_query now) (tickets w0)) w0)
       (\<lambda>_ w1. for_of (escalateTicket now)
                  (filter (stale_high_priority_query now) (tickets w1)) w1)
       w"

definition checkEscalations :: "time \<Rightarrow> world \<Rightarrow> world" where
  "checkEscalations now w =
     (case checkEscalations_try now w of
        (Inl e, w') \<Rightarrow> log_line ''Error checking escalations:'' w'
      | (Inr _, w') \<Rightarrow> w')"

text \<open>
  \<open>calculateSLADueDate\<close>: \<open>slaHours[priority] || slaHours['medium']\<close> is a lookup in
  the table with medium's hours for a priority that is not a key of it. A priority that
  names a property every object inherits (\<open>constructor\<close>, \<open>toString\<close>, ...) finds that
  property instead and gives an Invalid Date; such a name is not a priority of the schema,
  and this case is left out: \<open>Object_prototype_names\<close> lists the names.
\<close>

definition Object_prototype_names :: "string list" where
  "Object_prototype_names =
     [''constructor'', ''hasOwnProperty'', ''isPrototypeOf'', ''propertyIsEnumerable'',
      ''toLocaleString'', ''toString'', ''valueOf'', ''__proto__'', ''__defineGetter__'',
      ''__defineSetter__'', ''__lookupGetter__'', ''__lookupSetter__'']"

definition slaHours :: "(string \<times> int) list" where
  "slaHours = [(''urgent'', 2), (''high'', 8), (''medium'', 24), (''low'', 72)]"

definition calculateSLADueDate :: "string \<Rightarrow> time \<Rightarrow> time" where
  "calculateSLADueDate prio created =
     (let hours = (case map_of slaHours prio of
                     Some h \<Rightarrow> h
                   | None \<Rightarrow> the (map_of slaHours ''medium''))
      in created + hours * 60 * 60 * 1000)"

text \<open>\<open>updateTicketSLA\<close>: returns nothing for an unknown id; an error of \<open>save\<close> is rethrown.\<close>

definition updateTicketSLA ::
  "time \<Rightarrow> objectId \<Rightarrow> string \<Rightarrow> world \<Rightarrow> (error + ticket option) \<times> world" where
  "updateTicketSLA now ticketId newPriority w =
     (case find_ticket ticketId w of
        None \<Rightarrow> (Inr None, w)
      | Some t \<Rightarrow>
          (let newDueDate = calculateSLADueDate newPriority (createdAt t);
               t' = t\<lparr>sla := (sla t)\<lparr>dueDate := newDueDate\<rparr>, priority := newPriority\<rparr>
           in case save now t' w of
                (Inl e, w') \<Rightarrow> (Inl e, log_line ''Error updating ticket SLA:'' w')
              | (Inr d, w') \<Rightarrow> (Inr (Some d), w')))"

text \<open>
  What one escalation leaves behind, in closed form: the stored ticket after the one or
  two saves of \<open>escalateTicket\<close>, and the notification each admin gets.
\<close>

definition escalated :: "time \<Rightarrow> ticket \<Rightarrow> ticket" where
  "escalated now t =
     (let t1 = (if priority t \<noteq> ''urgent''
                then t\<lparr>priority := ''urgent'', version := version t + 1, updatedAt := now\<rparr>
                else t)
      in t1\<lparr>internalNotes := internalNotes t1 @ [escalation_note now],
             version := version t1 + 1, updatedAt := now\<rparr>)"

definition escalation_notice :: "time \<Rightarrow> ticket \<Rightarrow> user \<Rightarrow> notification" where
  "escalation_notice now t a =
     \<lparr> n_user = uid a, n_type = ''ticket_escalated'', n_title = ''Ticket Escalated'',
       n_message = ''Ticket \"'' @ title t @ ''\" has been escalated due to SLA breach or inactivity.'',
       n_ticket = Some (tid t), n_priority = ''urgent'', n_createdAt = now \<rparr>"

section \<open>The ticket routes\<close>

datatype response =
    Created_201 ticket
  | OK_200 ticket
  | BadRequest_400
  | Forbidden_403
  | NotFound_404
  | Conflict_409 int
  | ServerError_500

subsection \<open>\<open>POST /api/tickets\<close>\<close>

text \<open>
  The request after \<open>authenticateToken\<close>: the user, whether express-validator found the
  body valid, and the body fields the handler destructures (an absent field is \<open>None\<close>).
\<close>

record createRequest =
  c_user :: user
  c_valid :: bool
  c_title :: string
  c_description :: string
  c_category :: string
  c_priority :: "string option"
  c_tags :: "string list option"

text \<open>
  The defaults of the \<open>sla\<close> sub-document: \<open>responseTime\<close> 24, \<open>resolutionTime\<close> 72,
  and \<open>dueDate\<close> the function \<open>Date.now() + this.sla.resolutionTime * 60 * 60 * 1000\<close>.
  The route passes no \<open>sla\<close> field, so the defaults are what a new ticket gets.
\<close>

definition default_sla :: "time \<Rightarrow> sla" where
  "default_sla now =
     (let resolution = 72
      in \<lparr> responseTime = 24, resolutionTime = resolution, firstResponseAt = None,
           resolvedAt = None, dueDate = now + resolution * 60 * 60 * 1000 \<rparr>)"

text \<open>The id of a new document: one that no stored ticket has.\<close>

definition fresh_id :: "world \<Rightarrow> objectId" where
  "fresh_id w = Suc (fold max (map tid (tickets w)) 0)"

definition new_Ticket :: "time \<Rightarrow> objectId \<Rightarrow> createRequest \<Rightarrow> ticket" where
  "new_Ticket now i req =
     \<lparr> tid = i, title = c_title req, description = c_description req,
       status = ''open'',
       priority = (case c_priority req of None \<Rightarrow> ''medium'' | Some p \<Rightarrow> p),
       category = c_category req, createdBy = uid (c_user req),
       assignedTo = None, assignedAt = None, sla = default_sla now, version = 0,
       tags = (case c_tags req of None \<Rightarrow> [] | Some g \<Rightarrow> g),
       internalNotes = [], createdAt = now, updatedAt = now \<rparr>"

definition post_ticket :: "time \<Rightarrow> createRequest \<Rightarrow> world \<Rightarrow> response \<times> world" where
  "post_ticket now req w =
     (if \<not> c_valid req then (BadRequest_400, w)
      else case save now (new_Ticket now (fresh_id w) req) w of
             (Inl e, w1) \<Rightarrow> (ServerError_500, log_line ''Create ticket error:'' w1)
           | (Inr t, w1) \<Rightarrow>
               (case notifyTicketCreated now t w1 of
                  (Inl e, w2) \<Rightarrow> (ServerError_500, log_line ''Create ticket error:'' w2)
                | (Inr _, w2) \<Rightarrow> (Created_201 t, w2)))"

subsection \<open>\<open>PATCH /api/tickets/:id\<close>\<close>

text \<open>
  \<open>updateData\<close> is the body without \<open>version\<close>: the validated optional fields, and the
  three paths the handler adds. \<open>None\<close> is an absent key. The handler passes on every
  other key of the body as well; what follows is about bodies that carry the validated
  keys only.
\<close>

record updateData =
  u_title :: "string option"
  u_description :: "string option"
  u_status :: "string option"
  u_priority :: "string option"
  u_assignedTo :: "objectId option"
  u_tags :: "string list option"
  u_firstResponseAt :: "time option"
  u_resolvedAt :: "time option"
  u_assignedAt :: "time option"

record patchRequest =
  p_user :: user
  p_id :: objectId
  p_valid :: bool
  p_version :: int
  p_data :: updateData

definition canAccessTicket :: "user \<Rightarrow> ticket \<Rightarrow> bool" where
  "canAccessTicket u t =
     (if role u = ''admin'' then True
      else if role u = ''agent'' \<and> (assignedTo t = None \<or> assignedTo t = Some (uid u)) then True
      else if role u = ''user'' \<and> createdBy t = uid u then True
      else False)"

definition canBeModified :: "ticket \<Rightarrow> string \<Rightarrow> objectId \<Rightarrow> bool" where
  "canBeModified t userRole userId =
     (if userRole = ''admin'' then True
      else if userRole = ''agent'' \<and> (assignedTo t = Some userId \<or> assignedTo t = None) then True
      else if userRole = ''user'' \<and> createdBy t = userId \<and> status t = ''open'' then True
      else False)"

definition handle_status_change :: "time \<Rightarrow> ticket \<Rightarrow> updateData \<Rightarrow> updateData" where
  "handle_status_change now t u =
     (case u_status u of
        None \<Rightarrow> u
      | Some s \<Rightarrow>
          if s \<noteq> [] \<and> s \<noteq> status t
          then (let u1 = u\<lparr>u_firstResponseAt :=
                            Some (case firstResponseAt (sla t) of Some f \<Rightarrow> f | None \<Rightarrow> now)\<rparr>
                in if s = ''resolved'' \<or> s = ''closed''
                   then u1\<lparr>u_resolvedAt := Some now\<rparr> else u1)
          else u)"

definition handle_assignment_change :: "time \<Rightarrow> ticket \<Rightarrow> updateData \<Rightarrow> updateData" where
  "handle_assignment_change now t u =
     (case u_assignedTo u of
        None \<Rightarrow> u
      | Some a \<Rightarrow> if Some a \<noteq> assignedTo t then u\<lparr>u_assignedAt := Some now\<rparr> else u)"

text \<open>
  \<open>Ticket.findByIdAndUpdate(id, updateData, {new: true, runValidators: true})\<close>: the
  keys present are set on the stored document and \<open>updatedAt\<close> is stamped. It is a
  query, not \<open>save()\<close>: the pre-save hook does not run. The result is the new document.
\<close>

definition set_fields :: "updateData \<Rightarrow> ticket \<Rightarrow> ticket" where
  "set_fields u t =
     (let t1 = (case u_title u of None \<Rightarrow> t | Some x \<Rightarrow> t\<lparr>title := x\<rparr>);
          t2 = (case u_description u of None \<Rightarrow> t1 | Some x \<Rightarrow> t1\<lparr>description := x\<rparr>);
          t3 = (case u_status u of None \<Rightarrow> t2 | Some x \<Rightarrow> t2\<lparr>status := x\<rparr>);
          t4 = (case u_priority u of None \<Rightarrow> t3 | Some x \<Rightarrow> t3\<lparr>priority := x\<rparr>);
          t5 = (case u_assignedTo u of None \<Rightarrow> t4 | Some x \<Rightarrow> t4\<lparr>assignedTo := Some x\<rparr>);
          t6 = (case u_tags u of None \<Rightarrow> t5 | Some x \<Rightarrow> t5\<lparr>tags := x\<rparr>);
          t7 = (case u_firstResponseAt u of None \<Rightarrow> t6
                | Some x \<Rightarrow> t6\<lparr>sla := (sla t6)\<lparr>firstResponseAt := Some x\<rparr>\<rparr>);
          t8 = (case u_resolvedAt u of None \<Rightarrow> t7
                | Some x \<Rightarrow> t7\<lparr>sla := (sla t7)\<lparr>resolvedAt := Some x\<rparr>\<rparr>);
          t9 = (case u_assignedAt u of None \<Rightarrow> t8 | Some x \<Rightarrow> t8\<lparr>assignedAt := Some x\<rparr>)
      in t9)"

definition findByIdAndUpdate ::
  "time \<Rightarrow> objectId \<Rightarrow> updateData \<Rightarrow> world \<Rightarrow> ticket option \<times> world" where
  "findByIdAndUpdate now i u w =
     (case find_ticket i w of
        None \<Rightarrow> (None, w)
      | Some t \<Rightarrow>
          (let d = (set_fields u t)\<lparr>updatedAt := now\<rparr>
           in (Some d, w\<lparr>tickets := replace_ticket d (tickets w)\<rparr>)))"

text \<open>
  The route: \<open>canAccessTicket\<close> loads \<open>req.ticket\<close> (404, 403), then the handler checks the
  validation result (400), \<open>canBeModified\<close> (403) and the version (409) before it writes.
\<close>

definition patch_ticket :: "time \<Rightarrow> patchRequest \<Rightarrow> world \<Rightarrow> response \<times> world" where
  "patch_ticket now req w =
     (case find_ticket (p_id req) w of
        None \<Rightarrow> (NotFound_404, w)
      | Some req_ticket \<Rightarrow>
          if \<not> canAccessTicket (p_user req) req_ticket then (Forbidden_403, w)
          else if \<not> p_valid req then (BadRequest_400, w)
          else if \<not> canBeModified req_ticket (role (p_user req)) (uid (p_user req))
               then (Forbidden_403, w)
          else if version req_ticket \<noteq> p_version req
               then (Conflict_409 (version req_ticket), w)
          else (let u1 = handle_status_change now req_ticket (p_data req);
                    u2 = handle_assignment_change now req_ticket u1
                in case findByIdAndUpdate now (p_id req) u2 w of
                     (None, w') \<Rightarrow> (ServerError_500, log_line ''Update ticket error:'' w')
                   | (Some updatedTicket, w') \<Rightarrow> (OK_200 updatedTicket, w')))"

section \<open>The workflow service (\<open>WorkflowService\<close>)\<close>

text \<open>
  A rule is an object with an optional \<open>trigger\<close>, a \<open>condition\<close> and an \<open>action\<close>.
  The action works on the ticket document it is handed and on the store, so its state is
  the pair of both. The registry is a JavaScript \<open>Map\<close>: an association list in
  insertion order.
\<close>

type_synonym wstate = "ticket \<times> world"

record rule =
  r_trigger :: "string option"
  r_condition :: "(time \<Rightarrow> ticket \<Rightarrow> bool) option"
  r_action :: "time \<Rightarrow> wstate \<Rightarrow> (error + unit) \<times> wstate"

type_synonym registry = "(string \<times> rule) list"

text \<open>\<open>await ticket.save()\<close> on the document in hand; \<open>in_store\<close> runs a store effect.\<close>

definition save_doc :: "time \<Rightarrow> wstate \<Rightarrow> (error + unit) \<times> wstate" where
  "save_doc now s =
     (case save now (fst s) (snd s) of
        (Inl e, w') \<Rightarrow> (Inl e, (fst s, w'))
      | (Inr d, w') \<Rightarrow> (Inr (), (d, w')))"

definition in_store :: "(world \<Rightarrow> (error + unit) \<times> world) \<Rightarrow> wstate \<Rightarrow> (error + unit) \<times> wstate" where
  "in_store f s = (case f (snd s) of (r, w') \<Rightarrow> (r, (fst s, w')))"

definition assign :: "(ticket \<Rightarrow> ticket) \<Rightarrow> wstate \<Rightarrow> (error + unit) \<times> wstate" where
  "assign f s = (Inr (), (f (fst s), snd s))"

definition addRule :: "string \<Rightarrow> rule \<Rightarrow> registry \<Rightarrow> registry" where
  "addRule name r rules =
     (if name \<in> set (map fst rules)
      then map (\<lambda>(n, x). if n = name then (n, r) else (n, x)) rules
      else rules @ [(name, r)])"

definition removeRule :: "string \<Rightarrow> registry \<Rightarrow> registry" where
  "removeRule name rules = filter (\<lambda>(n, x). n \<noteq> name) rules"

subsection \<open>The default rules\<close>






subsection \<open>\<open>executeRules\<close>\<close>

text \<open>
  \<open>rule.trigger && rule.trigger !== trigger\<close>: a rule is passed over when it has a
  non-empty trigger that differs from the one given.
\<close>

definition trigger_mismatch :: "rule \<Rightarrow> string \<Rightarrow> bool" where
  "trigger_mismatch r trigger =
     (case r_trigger r of None \<Rightarrow> False | Some g \<Rightarrow> g \<noteq> [] \<and> g \<noteq> trigger)"

fun run_rules :: "time \<Rightarrow> string \<Rightarrow> registry \<Rightarrow> wstate \<Rightarrow> (error + unit) \<times> wstate" where
  "run_rules now trigger [] s = (Inr (), s)"
| "run_rules now trigger ((ruleName, r) # rest) s =
     (if trigger_mismatch r trigger then run_rules now trigger rest s
      else if (case r_condition r of None \<Rightarrow> False | Some c \<Rightarrow> c now (fst s))
      then (case r_action r now
                   (fst s, log_line (''Executing workflow rule: '' @ ruleName) (snd s)) of
              (Inl e, s') \<Rightarrow> (Inl e, s')
            | (Inr _, s') \<Rightarrow> run_rules now trigger rest s')
      else run_rules now trigger rest s)"

definition executeRules :: "time \<Rightarrow> registry \<Rightarrow> ticket \<Rightarrow> string \<Rightarrow> world \<Rightarrow> wstate" where
  "executeRules now rules t trigger w =
     (case run_rules now trigger rules (t, w) of
        (Inl e, s') \<Rightarrow> (fst s', log_line ''Error executing workflow rules for ticket'' (snd s'))
      | (Inr _, s') \<Rightarrow> s')"

text \<open>
  The names of the rules whose condition a call evaluates: \<open>run_rules\<close> again, keeping
  the names instead of the state.
\<close>

fun evaluated_rules :: "time \<Rightarrow> string \<Rightarrow> registry \<Rightarrow> wstate \<Rightarrow> string list" where
  "evaluated_rules now trigger [] s = []"
| "evaluated_rules now trigger ((ruleName, r) # rest) s =
     (if trigger_mismatch r trigger then evaluated_rules now trigger rest s
      else ruleName #
        (if (case r_condition r of None \<Rightarrow> False | Some c \<Rightarrow> c now (fst s))
         then (case r_action r now
                      (fst s, log_line (''Executing workflow rule: '' @ ruleName) (snd s)) of
                 (Inl e, s') \<Rightarrow> []
               | (Inr _, s') \<Rightarrow> evaluated_rules now trigger rest s')
         else evaluated_rules now trigger rest s))"

subsection \<open>\<open>buildAction\<close>\<close>

datatype recipient = Ticket_creator | Recipient objectId

datatype action =
    Assign_to_agent objectId
  | Change_priority string
  | Change_status string
  | Add_tag string
  | Send_notification recipient string string
  | Escalate_to_admin
  | Other_type

fun run_action :: "time \<Rightarrow> action \<Rightarrow> wstate \<Rightarrow> (error + unit) \<times> wstate" where
  "run_action now (Assign_to_agent v) s =
     and_then (assign (\<lambda>t. t\<lparr>assignedTo := Some v, assignedAt := Some now\<rparr>))
       (\<lambda>_. and_then (save_doc now)
          (\<lambda>_ s2. in_store (notifyTicketAssigned now (fst s2) v) s2)) s"
| "run_action now (Change_priority v) s =
     and_then (assign (\<lambda>t. t\<lparr>priority := v\<rparr>)) (\<lambda>_. save_doc now) s"
| "run_action now (Change_status v) s =
     and_then (assign (\<lambda>t. t\<lparr>status := v\<rparr>))
       (\<lambda>_. and_then
          (assign (\<lambda>t. if v = ''resolved'' then t\<lparr>sla := (sla t)\<lparr>resolvedAt := Some now\<rparr>\<rparr>
                        else t))
          (\<lambda>_. save_doc now)) s"
| "run_action now (Add_tag v) s =
     (if v \<notin> set (tags (fst s))
      then and_then (assign (\<lambda>t. t\<lparr>tags := tags t @ [v]\<rparr>)) (\<lambda>_. save_doc now) s
      else (Inr (), s))"
| "run_action now (Send_notification rcpt ttl message) s =
     in_store (discard (createNotification now
                 (case rcpt of Ticket_creator \<Rightarrow> createdBy (fst s) | Recipient i \<Rightarrow> i)
                 ''workflow_notification'' ttl message (Some (tid (fst s))) None)) s"
| "run_action now Escalate_to_admin s =
     in_store (\<lambda>w. for_of (\<lambda>admin. discard (createNotification now (uid admin)
                      ''ticket_escalated'' ''Ticket Escalated by Workflow''
                      (''Ticket \"'' @ title (fst s) @ ''\" has been escalated by workflow rule.'')
                      (Some (tid (fst s))) (Some ''urgent'')))
                 (find_admins w) w) s"
| "run_action now Other_type s = (Inr (), s)"

definition buildAction :: "action list \<Rightarrow> time \<Rightarrow> wstate \<Rightarrow> (error + unit) \<times> wstate" where
  "buildAction actions now s = for_of (run_action now) actions s"

section \<open>A sample ticket\<close>

text \<open>
  A ticket as the schema defaults create it at time 0 (status open, priority medium,
  response budget 24 h, resolution budget 72 h, version 0); the concrete inputs below
  are updates of it.
\<close>

definition sample_sla :: sla where
  "sample_sla = \<lparr> responseTime = 24, resolutionTime = 72, firstResponseAt = None,
                   resolvedAt = None, dueDate = 259200000 \<rparr>"

definition sample_ticket :: ticket where
  "sample_ticket = \<lparr> tid = 1, title = ''Printer is on fire'',
                      description = ''It started smoking this morning'',
                      status = ''open'', priority = ''medium'', category = ''technical'',
                      createdBy = 10, assignedTo = None, assignedAt = None,
                      sla = sample_sla, version = 0, tags = [], internalNotes = [],
                      createdAt = 0, updatedAt = 0 \<rparr>"

text \<open>
  A sample store: the ticket above, its creator (a plain user), a technical agent and an
  admin; no notifications yet.
\<close>

definition creator :: user where
  "creator = \<lparr> uid = 10, role = ''user'', isActive = True, specializations = [] \<rparr>"

definition agent :: user where
  "agent = \<lparr> uid = 20, role = ''agent'', isActive = True, specializations = [''technical''] \<rparr>"

definition admin :: user where
  "admin = \<lparr> uid = 30, role = ''admin'', isActive = True, specializations = [] \<rparr>"

definition sample_world :: world where
  "sample_world = \<lparr> tickets = [sample_ticket], notifications = [],
                     users = [creator, agent, admin], console = [] \<rparr>"

definition no_update :: updateData where
  "no_update = \<lparr> u_title = None, u_description = None, u_status = None, u_priority = None,
                  u_assignedTo = None, u_tags = None, u_firstResponseAt = None,
                  u_resolvedAt = None, u_assignedAt = None \<rparr>"

text \<open>Requests used as concrete inputs below.\<close>

definition urgent_request :: createRequest where
  "urgent_request = \<lparr> c_user = creator, c_valid = True, c_title = ''Server down'',
                       c_description = ''Nothing responds at all'',
                       c_category = ''technical'', c_priority = Some ''urgent'',
                       c_tags = None \<rparr>"

definition priority_patch :: patchRequest where
  "priority_patch = \<lparr> p_user = admin, p_id = 1, p_valid = True, p_version = 0,
                       p_data = no_update\<lparr>u_priority := Some ''urgent''\<rparr> \<rparr>"

definition title_patch :: patchRequest where
  "title_patch = \<lparr> p_user = admin, p_id = 1, p_valid = True, p_version = 0,
                    p_data = no_update\<lparr>u_title := Some ''Printer is still on fire''\<rparr> \<rparr>"

definition stale_patch :: patchRequest where
  "stale_patch = \<lparr> p_user = admin, p_id = 1, p_valid = True, p_version = 5,
                    p_data = no_update\<lparr>u_title := Some ''Printer is still on fire''\<rparr> \<rparr>"

text \<open>
  Two rules as an administrator can register them for \<open>ticket_updated\<close>: the first
  notifies the creator (type \<open>workflow_notification\<close>), the second tags the ticket.
\<close>

definition notify_creator_rule :: rule where
  "notify_creator_rule =
     \<lparr> r_trigger = Some ''ticket_updated'',
       r_condition = Some (\<lambda>now t. category t = ''technical''),
       r_action = buildAction
         [Send_notification Ticket_creator ''Ticket updated'' ''Your ticket was updated.''] \<rparr>"

definition tag_rule :: rule where
  "tag_rule =
     \<lparr> r_trigger = Some ''ticket_updated'',
       r_condition = Some (\<lambda>now t. category t = ''technical''),
       r_action = buildAction [Add_tag ''vip''] \<rparr>"

definition two_rules :: registry where
  "two_rules = addRule ''tag_technical'' tag_rule (addRule ''notify_creator'' notify_creator_rule [])"

text \<open>
  A store with two tickets that are both due in 90 minutes at time 253800000 (70.5 h);
  the creator of the first (user 99) has no user document.
\<close>

definition orphan_ticket :: ticket where
  "orphan_ticket = sample_ticket\<lparr>createdBy := 99\<rparr>"

definition second_ticket :: ticket where
  "second_ticket = sample_ticket\<lparr>tid := 2\<rparr>"

definition scan_world :: world where
  "scan_world = sample_world\<lparr>tickets := [orphan_ticket, second_ticket]\<rparr>"

text \<open>
  What \<open>notifyCommentAdded\<close> records for the ticket's creator when somebody else
  comments on the sample ticket at time \<open>at\<close>.
\<close>

definition comment_added :: "time \<Rightarrow> world \<Rightarrow> world" where
  "comment_added at w =
     snd (createNotification at (createdBy sample_ticket) ''comment_added'' ''New Comment''
            (''A new comment was added to ticket \"'' @ title sample_ticket @ ''\".'')
            (Some (tid sample_ticket)) (Some ''medium'') w)"

text \<open>The notifications of a given type that user \<open>u\<close> has about ticket \<open>i\<close>, as their times.\<close>

definition sent :: "string \<Rightarrow> objectId \<Rightarrow> objectId \<Rightarrow> world \<Rightarrow> time list" where
  "sent type u i w =
     map n_createdAt
       (filter (\<lambda>n. n_type n = type \<and> n_user n = u \<and> n_ticket n = Some i) (notifications w))"




section \<open>The SLA classifier\<close>

text \<open>
  C3. The derived slaStatus is the priority-ordered classifier of the specification over
  (now, status, dueDate, firstResponseAt, responseBudget): resolved or closed gives
  completed; otherwise a first response older than the response budget gives
  response_breach; otherwise now past dueDate gives resolution_breach; otherwise now past
  dueDate minus 24 hours gives warning; otherwise on_time. The first rule that applies wins.
\<close>

theorem slaStatus_classifier:
  "slaStatus now t =
     spec_slaStatus now (status t) (dueDate (sla t)) (firstResponseAt (sla t))
       (responseTime (sla t))"
  by (simp add: slaStatus_def spec_slaStatus_def HOUR_def split: option.splits)

text \<open>
  The four examples of the specification, read off the theorem: an open ticket due one hour
  ago, due in 30 minutes, due in 48 hours, and a closed ticket.
\<close>

theorem slaStatus_classifier_witness:
  "slaStatus 3600000 (sample_ticket\<lparr>sla := sample_sla\<lparr>dueDate := 0\<rparr>\<rparr>) = ''resolution_breach''
   \<and> slaStatus 0 (sample_ticket\<lparr>sla := sample_sla\<lparr>dueDate := 1800000\<rparr>\<rparr>) = ''warning''
   \<and> slaStatus 0 (sample_ticket\<lparr>sla := sample_sla\<lparr>dueDate := 172800000\<rparr>\<rparr>) = ''on_time''
   \<and> slaStatus 0 (sample_ticket\<lparr>status := ''closed''\<rparr>) = ''completed''"
  using slaStatus_classifier [of 3600000 "sample_ticket\<lparr>sla := sample_sla\<lparr>dueDate := 0\<rparr>\<rparr>"]
        slaStatus_classifier [of 0 "sample_ticket\<lparr>sla := sample_sla\<lparr>dueDate := 1800000\<rparr>\<rparr>"]
        slaStatus_classifier [of 0 "sample_ticket\<lparr>sla := sample_sla\<lparr>dueDate := 172800000\<rparr>\<rparr>"]
        slaStatus_classifier [of 0 "sample_ticket\<lparr>status := ''closed''\<rparr>"]
  by (simp add: spec_slaStatus_def sample_ticket_def sample_sla_def HOUR_def)

section \<open>Terminal states\<close>

text \<open>
  Both virtuals test \<open>status === 'resolved' || status === 'closed'\<close>; a cancelled ticket
  takes the same branches as an open one.
\<close>

lemma cancelled_like_open:
  "status t = ''cancelled'' \<Longrightarrow>
     slaStatus now t = slaStatus now (t\<lparr>status := ''open''\<rparr>)
     \<and> timeRemaining now t = timeRemaining now (t\<lparr>status := ''open''\<rparr>)"
  by (simp add: slaStatus_def timeRemaining_def split: option.splits)

text \<open>
  C9, as stated, fails for a cancelled ticket: cancelled at time 0 with 72 hours left, it is
  on_time with 72 hours remaining.
\<close>

theorem cancelled_sla_counterexample:
  "status (sample_ticket\<lparr>status := ''cancelled''\<rparr>) = ''cancelled''
   \<and> slaStatus 0 (sample_ticket\<lparr>status := ''cancelled''\<rparr>) = ''on_time''
   \<and> timeRemaining 0 (sample_ticket\<lparr>status := ''cancelled''\<rparr>) = Some 72"
  by (simp add: slaStatus_def timeRemaining_def ceil_div_def sample_ticket_def sample_sla_def)

text \<open>
  C9, amended. For every ticket whose status is resolved or closed, the derived slaStatus
  is completed and timeRemaining is null.
\<close>

theorem resolved_closed_sla_frozen:
  assumes "status t = ''resolved'' \<or> status t = ''closed''"
  shows "slaStatus now t = ''completed'' \<and> timeRemaining now t = None"
  using assms by (auto simp: slaStatus_def timeRemaining_def)

theorem resolved_closed_sla_frozen_witness:
  "(status (sample_ticket\<lparr>status := ''closed''\<rparr>) = ''resolved''
      \<or> status (sample_ticket\<lparr>status := ''closed''\<rparr>) = ''closed'')
   \<and> slaStatus 400000000 (sample_ticket\<lparr>status := ''closed''\<rparr>) = ''completed''
   \<and> timeRemaining 400000000 (sample_ticket\<lparr>status := ''closed''\<rparr>) = None"
  using resolved_closed_sla_frozen [of "sample_ticket\<lparr>status := ''closed''\<rparr>" 400000000]
  by simp

section \<open>Facts about the store\<close>

lemmas sample_defs = sample_world_def sample_ticket_def sample_sla_def creator_def agent_def
  admin_def no_update_def

lemmas effect_defs = and_then_def discard_def log_line_def createNotification_def
  valid_notification_def notification_types_def priorities_def statuses_def getNotifications_def
  find_admins_def watchers_of_def notifySLAWarning_def notifySLABreach_def
  notifyTicketAssigned_def notifyTicketCreated_def find_ticket_def validate_modified_def
  pre_save_def replace_ticket_def save_def Let_def

lemmas sla_service_defs = escalation_note_def escalateTicket_try_def escalateTicket_def
  handleSLAWarning_def handleSLABreach_def warning_query_def breach_query_def
  checkSLAStatus_try_def checkSLAStatus_def unassigned_query_def stale_high_priority_query_def
  checkEscalations_try_def checkEscalations_def

lemmas workflow_defs = save_doc_def in_store_def assign_def addRule_def removeRule_def
  trigger_mismatch_def executeRules_def buildAction_def

lemma find_ticket_tid: "find_ticket i w = Some t \<Longrightarrow> tid t = i"
  by (auto simp: find_ticket_def find_Some_iff)

lemma find_ticket_mem: "find_ticket i w = Some t \<Longrightarrow> t \<in> set (tickets w)"
  by (auto simp: find_ticket_def find_Some_iff)

lemma find_replace:
  "find (\<lambda>x. tid x = tid d) ts = Some t \<Longrightarrow> find (\<lambda>x. tid x = tid d) (replace_ticket d ts) = Some d"
  by (induction ts) (auto simp: replace_ticket_def split: if_splits)

section \<open>Creation\<close>

lemma new_Ticket_defaults:
  "status (new_Ticket now i req) = ''open''
   \<and> priority (new_Ticket now i req) = (case c_priority req of None \<Rightarrow> ''medium'' | Some p \<Rightarrow> p)
   \<and> version (new_Ticket now i req) = 0
   \<and> dueDate (sla (new_Ticket now i req)) = now + 72 * HOUR"
  by (simp add: new_Ticket_def default_sla_def HOUR_def)

lemma fold_max_ge: "a \<le> fold max xs (a::nat)"
  by (induction xs arbitrary: a) (auto intro: order_trans [OF max.cobounded2])

lemma fold_max_mem: "x \<in> set xs \<Longrightarrow> x \<le> fold max xs (a::nat)"
proof (induction xs arbitrary: a)
  case Nil
  then show ?case by simp
next
  case (Cons y ys)
  show ?case
  proof (cases "x = y")
    case True
    have "x \<le> max x a" by simp
    also have "\<dots> \<le> fold max ys (max x a)" by (rule fold_max_ge)
    finally show ?thesis using True by simp
  next
    case False
    with Cons show ?thesis by simp
  qed
qed

lemma fresh_id_unused: "find_ticket (fresh_id w) w = None"
proof -
  have "\<forall>x\<in>set (tickets w). tid x \<noteq> fresh_id w"
  proof
    fix x assume "x \<in> set (tickets w)"
    then have "tid x \<in> set (map tid (tickets w))" by simp
    from fold_max_mem [OF this, of 0] show "tid x \<noteq> fresh_id w" by (simp add: fresh_id_def)
  qed
  then show ?thesis by (simp add: find_ticket_def find_None_iff)
qed

text \<open>What the route stores for any request it accepts.\<close>

lemma post_ticket_created:
  assumes "post_ticket now req w = (Created_201 t, w')"
  shows "status t = ''open''
         \<and> priority t = (case c_priority req of None \<Rightarrow> ''medium'' | Some p \<Rightarrow> p)
         \<and> version t = 0 \<and> createdAt t = now
         \<and> dueDate (sla t) = createdAt t + 72 * HOUR"
proof -
  have s: "save now (new_Ticket now (fresh_id w) req) w
           = (Inr (new_Ticket now (fresh_id w) req),
              w\<lparr>tickets := tickets w @ [new_Ticket now (fresh_id w) req]\<rparr>)"
    using fresh_id_unused [of w]
    by (simp add: save_def new_Ticket_def pre_save_def Let_def)
  from assms have "t = new_Ticket now (fresh_id w) req"
    by (auto simp: post_ticket_def s split: if_splits prod.splits sum.splits)
  then show ?thesis
    by (simp add: new_Ticket_def default_sla_def HOUR_def)
qed

lemma calculateSLADueDate_table:
  "calculateSLADueDate ''urgent'' c = c + 2 * HOUR
   \<and> calculateSLADueDate ''high'' c = c + 8 * HOUR
   \<and> calculateSLADueDate ''medium'' c = c + 24 * HOUR
   \<and> calculateSLADueDate ''low'' c = c + 72 * HOUR
   \<and> (p \<notin> set priorities \<and> p \<notin> set Object_prototype_names
        \<longrightarrow> calculateSLADueDate p c = c + 24 * HOUR)"
  by (simp add: calculateSLADueDate_def slaHours_def HOUR_def priorities_def)

text \<open>
  C2. Every newly created ticket has status open, priority defaulting to medium, and
  dueDate equal to its creation time plus the resolution budget of its priority (urgent
  2 h, high 8 h, medium 24 h, low 72 h, medium's for a priority that is not one of
  these). Status and priority are as stated, but the due
  date is the creation time plus 72 h for every priority (\<open>post_ticket_created\<close>): an
  urgent ticket posted at time 5000 is stored with dueDate 5000 + 72 h, where
  \<open>calculateSLADueDate\<close> gives 5000 + 2 h for it.
\<close>

theorem post_ticket_dueDate_fixed:
  "\<exists>t w. post_ticket 5000 urgent_request sample_world = (Created_201 t, w)
      \<and> find_ticket (tid t) w = Some t
      \<and> status t = ''open'' \<and> priority t = ''urgent'' \<and> createdAt t = 5000
      \<and> dueDate (sla t) = 5000 + 72 * HOUR
      \<and> calculateSLADueDate (priority t) (createdAt t) = 5000 + 2 * HOUR"
  by (simp add: post_ticket_def urgent_request_def sample_defs save_def find_ticket_def
      new_Ticket_def fresh_id_def pre_save_def notifyTicketCreated_def and_then_def discard_def
      createNotification_def valid_notification_def notification_types_def priorities_def
      default_sla_def log_line_def calculateSLADueDate_def slaHours_def HOUR_def Let_def)

section \<open>Updates through \<open>PATCH /api/tickets/:id\<close>\<close>

lemma set_fields_keeps:
  "tid (set_fields u t) = tid t \<and> version (set_fields u t) = version t
   \<and> dueDate (sla (set_fields u t)) = dueDate (sla t)
   \<and> createdAt (set_fields u t) = createdAt t"
  by (simp add: set_fields_def Let_def split: option.splits)

lemma findByIdAndUpdate_result:
  assumes "findByIdAndUpdate now i u w = (Some d, w')"
  shows "\<exists>t. find_ticket i w = Some t \<and> d = (set_fields u t)\<lparr>updatedAt := now\<rparr>
           \<and> find_ticket i w' = Some d \<and> w' = w\<lparr>tickets := replace_ticket d (tickets w)\<rparr>"
proof -
  from assms obtain t where t: "find_ticket i w = Some t"
    by (auto simp: findByIdAndUpdate_def split: option.splits)
  with assms have d: "d = (set_fields u t)\<lparr>updatedAt := now\<rparr>"
    and w': "w' = w\<lparr>tickets := replace_ticket d (tickets w)\<rparr>"
    by (auto simp: findByIdAndUpdate_def Let_def)
  have "tid d = i" using d t by (simp add: set_fields_keeps find_ticket_tid)
  with t have "find_ticket i w' = Some d"
    unfolding w' find_ticket_def using find_replace [of d "tickets w" t] by simp
  with t d w' show ?thesis by blast
qed

text \<open>What any successful PATCH whose body carries validated keys only leaves behind.\<close>

lemma patch_ok_result:
  assumes "patch_ticket now req w = (OK_200 t', w')"
  shows "\<exists>t. find_ticket (p_id req) w = Some t \<and> find_ticket (p_id req) w' = Some t'
           \<and> version t = p_version req
           \<and> version t' = version t \<and> dueDate (sla t') = dueDate (sla t)
           \<and> createdAt t' = createdAt t
           \<and> priority t' = (case u_priority (p_data req) of None \<Rightarrow> priority t | Some p \<Rightarrow> p)"
proof -
  from assms obtain t where t: "find_ticket (p_id req) w = Some t"
    by (auto simp: patch_ticket_def split: option.splits)
  define u where "u = handle_assignment_change now t (handle_status_change now t (p_data req))"
  from assms t have v: "version t = p_version req"
    and f: "findByIdAndUpdate now (p_id req) u w = (Some t', w')"
    by (auto simp: patch_ticket_def Let_def u_def split: if_splits option.splits prod.splits)
  from findByIdAndUpdate_result [OF f] t
  have d: "t' = (set_fields u t)\<lparr>updatedAt := now\<rparr>" and s: "find_ticket (p_id req) w' = Some t'"
    by auto
  have up: "u_priority u = u_priority (p_data req)"
    by (simp add: u_def handle_assignment_change_def handle_status_change_def Let_def split: option.splits)
  have "priority t' = (case u_priority (p_data req) of None \<Rightarrow> priority t | Some p \<Rightarrow> p)"
    unfolding d up [symmetric] by (simp add: set_fields_def Let_def split: option.splits)
  with t v d s show ?thesis by (simp add: set_fields_keeps)
qed

lemma save_increments_version:
  assumes "find_ticket (tid doc) w = Some old" and "doc \<noteq> old" and "validate_modified old doc"
  shows "\<exists>d w'. save now doc w = (Inr d, w') \<and> version d = version doc + 1
           \<and> find_ticket (tid doc) w' = Some d"
proof -
  define d where "d = (pre_save True False doc)\<lparr>updatedAt := now\<rparr>"
  have td: "tid d = tid doc" by (simp add: d_def pre_save_def)
  have s: "save now doc w = (Inr d, w\<lparr>tickets := replace_ticket d (tickets w)\<rparr>)"
    using assms by (simp add: save_def d_def Let_def)
  have "find_ticket (tid doc) (w\<lparr>tickets := replace_ticket d (tickets w)\<rparr>) = Some d"
    using assms(1) find_replace [of d "tickets w" old] td by (simp add: find_ticket_def)
  moreover have "version d = version doc + 1" by (simp add: d_def pre_save_def)
  ultimately show ?thesis using s by blast
qed

text \<open>
  The one function that recomputes the due date from the creation time; no route, rule or
  scan calls it.
\<close>

lemma updateTicketSLA_recomputes:
  assumes "find_ticket i w = Some t" and "p \<in> set priorities"
  shows "\<exists>d w'. updateTicketSLA now i p w = (Inr (Some d), w')
           \<and> priority d = p \<and> createdAt d = createdAt t
           \<and> dueDate (sla d) = calculateSLADueDate p (createdAt t)"
proof -
  define doc where "doc = t\<lparr>sla := (sla t)\<lparr>dueDate := calculateSLADueDate p (createdAt t)\<rparr>,
                             priority := p\<rparr>"
  have i: "tid t = i" using assms(1) by (auto simp: find_ticket_def find_Some_iff)
  then have f: "find_ticket (tid doc) w = Some t" using assms(1) by (simp add: doc_def)
  have v: "validate_modified t doc" using assms(2) by (simp add: validate_modified_def doc_def)
  have fields: "priority doc = p" "createdAt doc = createdAt t"
    "dueDate (sla doc) = calculateSLADueDate p (createdAt t)"
    by (simp_all add: doc_def)
  show ?thesis
  proof (cases "doc = t")
    case True
    then have "save now doc w = (Inr doc, w)" using f by (simp add: save_def)
    then have "updateTicketSLA now i p w = (Inr (Some doc), w)"
      using assms(1) by (simp add: updateTicketSLA_def Let_def doc_def)
    with fields show ?thesis by blast
  next
    case False
    then have "save now doc w =
       (Inr (doc\<lparr>version := version doc + 1, updatedAt := now\<rparr>),
        w\<lparr>tickets := replace_ticket (doc\<lparr>version := version doc + 1, updatedAt := now\<rparr>)
                        (tickets w)\<rparr>)"
      using f v by (simp add: save_def pre_save_def Let_def)
    then have "updateTicketSLA now i p w =
       (Inr (Some (doc\<lparr>version := version doc + 1, updatedAt := now\<rparr>)),
        w\<lparr>tickets := replace_ticket (doc\<lparr>version := version doc + 1, updatedAt := now\<rparr>)
                        (tickets w)\<rparr>)"
      using assms(1) by (simp add: updateTicketSLA_def Let_def doc_def)
    moreover have "priority (doc\<lparr>version := version doc + 1, updatedAt := now\<rparr>) = p"
      "createdAt (doc\<lparr>version := version doc + 1, updatedAt := now\<rparr>) = createdAt t"
      "dueDate (sla (doc\<lparr>version := version doc + 1, updatedAt := now\<rparr>))
         = calculateSLADueDate p (createdAt t)"
      using fields by simp_all
    ultimately show ?thesis by blast
  qed
qed

text \<open>
  C1. Whenever a ticket's priority changes after creation (ticket-update endpoint or the
  workflow change_priority action), its dueDate is recomputed as the creation time plus
  the new priority's resolution budget. Neither path does it: the sample ticket, created
  at 0 with priority medium and due at 72 h, is made urgent one hour later by either
  path and is still due at 72 h, where \<open>calculateSLADueDate\<close> from its creation time
  gives 2 h.
\<close>

theorem priority_change_keeps_dueDate:
  "(\<exists>t w. patch_ticket 3600000 priority_patch sample_world = (OK_200 t, w)
       \<and> find_ticket 1 w = Some t \<and> priority sample_ticket = ''medium''
       \<and> priority t = ''urgent'' \<and> createdAt t = 0
       \<and> dueDate (sla t) = dueDate (sla sample_ticket)
       \<and> dueDate (sla t) = 72 * HOUR
       \<and> calculateSLADueDate ''urgent'' (createdAt t) = 2 * HOUR)
   \<and> (\<exists>t w. buildAction [Change_priority ''urgent''] 3600000 (sample_ticket, sample_world)
                = (Inr (), (t, w))
       \<and> find_ticket 1 w = Some t
       \<and> priority t = ''urgent'' \<and> createdAt t = 0
       \<and> dueDate (sla t) = 72 * HOUR)"
  by (simp add: patch_ticket_def priority_patch_def sample_defs find_ticket_def
      canAccessTicket_def canBeModified_def handle_status_change_def
      handle_assignment_change_def findByIdAndUpdate_def set_fields_def replace_ticket_def
      buildAction_def and_then_def assign_def save_doc_def save_def validate_modified_def
      priorities_def pre_save_def calculateSLADueDate_def slaHours_def HOUR_def Let_def)

text \<open>
  C4. A ticket update whose supplied version differs from the stored version fails and
  leaves the stored ticket unchanged; for a caller who passes the access check, the
  validation and \<open>canBeModified\<close>, the failure is the 409 that carries the current version
  (the 403 and 400 of those checks come first).
\<close>

theorem stale_version_conflict:
  assumes "find_ticket (p_id req) w = Some t" and "version t \<noteq> p_version req"
  shows "snd (patch_ticket now req w) = w
         \<and> (\<forall>t'. fst (patch_ticket now req w) \<noteq> OK_200 t')
         \<and> (canAccessTicket (p_user req) t \<and> p_valid req
              \<and> canBeModified t (role (p_user req)) (uid (p_user req))
            \<longrightarrow> fst (patch_ticket now req w) = Conflict_409 (version t))"
  using assms by (simp add: patch_ticket_def)

theorem stale_version_conflict_witness:
  "find_ticket (p_id stale_patch) sample_world = Some sample_ticket
   \<and> version sample_ticket \<noteq> p_version stale_patch
   \<and> patch_ticket 3600000 stale_patch sample_world = (Conflict_409 0, sample_world)"
proof -
  have f: "find_ticket (p_id stale_patch) sample_world = Some sample_ticket"
    by (simp add: find_ticket_def stale_patch_def sample_defs)
  have v: "version sample_ticket \<noteq> p_version stale_patch"
    by (simp add: stale_patch_def sample_defs)
  have c: "canAccessTicket (p_user stale_patch) sample_ticket \<and> p_valid stale_patch
           \<and> canBeModified sample_ticket (role (p_user stale_patch)) (uid (p_user stale_patch))"
    by (simp add: canAccessTicket_def canBeModified_def stale_patch_def sample_defs)
  have z: "version sample_ticket = 0" by (simp add: sample_defs)
  from stale_version_conflict [OF f v, of 3600000] c z
  have "patch_ticket 3600000 stale_patch sample_world = (Conflict_409 0, sample_world)"
    by (simp add: prod_eq_iff)
  with f v show ?thesis by simp
qed

text \<open>
  C5. The version is 0 at creation and increments by exactly 1 on every successful
  mutation. A successful PATCH does not increment it: the sample ticket has version 0,
  its title is changed by a PATCH that supplies version 0, and the stored version is
  still 0 (\<open>save\<close>, by contrast, adds one: \<open>save_increments_version\<close>).
\<close>

theorem patch_keeps_version:
  "\<exists>t w. patch_ticket 3600000 title_patch sample_world = (OK_200 t, w)
      \<and> find_ticket 1 w = Some t
      \<and> title t = ''Printer is still on fire''
      \<and> version sample_ticket = 0 \<and> version t = 0"
  by (simp add: patch_ticket_def title_patch_def sample_defs find_ticket_def
      canAccessTicket_def canBeModified_def handle_status_change_def
      handle_assignment_change_def findByIdAndUpdate_def set_fields_def replace_ticket_def
      Let_def)

section \<open>Workflow rules and triggers\<close>

lemma no_trigger_matches: "r_trigger r = None \<Longrightarrow> \<not> trigger_mismatch r trigger"
  by (simp add: trigger_mismatch_def)


lemma evaluated_rules_any_trigger:
  "list_all (\<lambda>(n, r). r_trigger r = None) rules \<Longrightarrow>
     evaluated_rules now trigger rules s = evaluated_rules now trigger' rules s"
proof (induction rules arbitrary: s)
  case Nil
  then show ?case by simp
next
  case (Cons a rules)
  obtain n r where a: "a = (n, r)" by (cases a)
  with Cons.prems have "r_trigger r = None" and "list_all (\<lambda>(n, r). r_trigger r = None) rules"
    by simp_all
  with Cons.IH a show ?case
    by (simp add: no_trigger_matches split: prod.splits sum.splits)
qed

lemma evaluated_rules_all:
  "list_all (\<lambda>(n, r). r_trigger r = None) rules \<Longrightarrow>
     fst (run_rules now trigger rules s) = Inr () \<Longrightarrow>
     evaluated_rules now trigger rules s = map fst rules"
proof (induction rules arbitrary: s)
  case Nil
  then show ?case by simp
next
  case (Cons a rules)
  obtain n r where a: "a = (n, r)" by (cases a)
  with Cons.prems have "r_trigger r = None" and "list_all (\<lambda>(n, r). r_trigger r = None) rules"
    by simp_all
  with Cons.IH Cons.prems(2) a show ?case
    by (auto simp: no_trigger_matches split: prod.splits sum.splits if_splits)
qed











section \<open>Faults inside a pass\<close>

lemma run_rules_throw_ends:
  "run_rules now trigger rs s = (Inl e, s') \<Longrightarrow>
     run_rules now trigger (rs @ later) s = (Inl e, s')"
proof (induction rs arbitrary: s)
  case Nil
  then show ?case by simp
next
  case (Cons a rs)
  obtain n r where a: "a = (n, r)" by (cases a)
  with Cons show ?case
    by (auto split: if_splits prod.splits sum.splits)
qed

lemma for_of_throw_ends:
  "for_of f xs s = (Inl e, s') \<Longrightarrow> for_of f (xs @ ys) s = (Inl e, s')"
  by (induction xs arbitrary: s) (auto split: prod.splits sum.splits)

lemma escalateTicket_never_throws: "fst (escalateTicket now t w) = Inr ()"
  by (simp add: escalateTicket_def split: prod.splits sum.splits)

text \<open>
  C6, as stated, fails. With the rule that notifies the creator registered before the rule
  that tags the ticket, the first action throws (the notification type
  \<open>workflow_notification\<close> is not in the schema's enum), the error is logged once and
  the tag rule, which alone would tag the ticket, does not run. In a scan over two
  tickets due in 90 minutes, the warning for the first throws (its creator has no user
  document), the error is logged once and the second ticket, which alone would get its
  warning, gets none.
\<close>

theorem fault_isolation_counterexample:
  "executeRules 1000 two_rules sample_ticket ''ticket_updated'' sample_world =
     (sample_ticket,
      sample_world\<lparr>console := [''Executing workflow rule: notify_creator'',
                                 ''Error executing workflow rules for ticket'']\<rparr>)
   \<and> tags (fst (executeRules 1000 (removeRule ''notify_creator'' two_rules) sample_ticket
                  ''ticket_updated'' sample_world)) = [''vip'']
   \<and> map n_ticket (notifications (checkSLAStatus 253800000 scan_world)) = [Some 1]
   \<and> console (checkSLAStatus 253800000 scan_world) = [''Error checking SLA status:'']
   \<and> map n_ticket (notifications (checkSLAStatus 253800000
                                     (scan_world\<lparr>tickets := [second_ticket]\<rparr>))) = [Some 2]"
  by (simp add: two_rules_def notify_creator_rule_def tag_rule_def scan_world_def
      orphan_ticket_def second_ticket_def sample_defs effect_defs workflow_defs sla_service_defs)

text \<open>
  C6, amended. In \<open>executeRules\<close> a throwing action is caught by the one handler around
  the loop: the call returns normally with the state reached at the throw and one log line,
  and no later rule runs. In \<open>checkSLAStatus\<close>, when \<open>handleSLAWarning\<close> or
  \<open>handleSLABreach\<close> throws for a ticket, the error is caught by the one handler around
  both loops: the scan ends with the state reached at the throw and one log line, and no
  later ticket is handled. \<open>escalateTicket\<close> never throws, it catches and logs its own
  errors: so \<open>handleSLABreach\<close> throws only when its notification step does, each loop
  over \<open>escalateTicket\<close> goes on to the next ticket whatever happened to the one before,
  and \<open>checkEscalations\<close> always runs both of its loops to the end.
\<close>

theorem fault_ends_the_pass:
  "(run_rules now trigger rs (t, w) = (Inl e, (t', w')) \<longrightarrow>
      executeRules now (rs @ later) t trigger w =
        (t', log_line ''Error executing workflow rules for ticket'' w'))
   \<and> (filter (warning_query now) (tickets w) = ts @ rest
        \<and> for_of (handleSLAWarning now) ts w = (Inl e, w2) \<longrightarrow>
      checkSLAStatus now w = log_line ''Error checking SLA status:'' w2)
   \<and> (for_of (handleSLAWarning now) (filter (warning_query now) (tickets w)) w = (Inr (), w1)
        \<and> filter (breach_query now) (tickets w1) = bs @ rest'
        \<and> for_of (handleSLABreach now) bs w1 = (Inl e, w3) \<longrightarrow>
      checkSLAStatus now w = log_line ''Error checking SLA status:'' w3)
   \<and> escalateTicket now x w =
        (Inr (), (case escalateTicket_try now x w of
                    (Inl e, w') \<Rightarrow> log_line ''Error escalating ticket:'' w'
                  | (Inr u, w') \<Rightarrow> w'))
   \<and> (fst (handleSLABreach now x w) = Inl e \<longrightarrow> fst (notifySLABreach now x w) = Inl e)
   \<and> for_of (escalateTicket now) (x # xs) w =
        for_of (escalateTicket now) xs (snd (escalateTicket now x w))
   \<and> fst (for_of (escalateTicket now) xs w) = Inr ()
   \<and> checkEscalations now w =
        (let u1 = snd (for_of (escalateTicket now) (filter (unassigned_query now) (tickets w)) w)
         in snd (for_of (escalateTicket now)
                   (filter (stale_high_priority_query now) (tickets u1)) u1))"
proof -
  have 1: "run_rules now trigger rs (t, w) = (Inl e, (t', w')) \<longrightarrow>
      executeRules now (rs @ later) t trigger w =
        (t', log_line ''Error executing workflow rules for ticket'' w')"
  proof
    assume "run_rules now trigger rs (t, w) = (Inl e, (t', w'))"
    from run_rules_throw_ends [OF this, of later]
    show "executeRules now (rs @ later) t trigger w =
        (t', log_line ''Error executing workflow rules for ticket'' w')"
      by (simp add: executeRules_def)
  qed
  have 2: "filter (warning_query now) (tickets w) = ts @ rest
        \<and> for_of (handleSLAWarning now) ts w = (Inl e, w2) \<longrightarrow>
      checkSLAStatus now w = log_line ''Error checking SLA status:'' w2"
  proof
    assume h: "filter (warning_query now) (tickets w) = ts @ rest
        \<and> for_of (handleSLAWarning now) ts w = (Inl e, w2)"
    then have "for_of (handleSLAWarning now) (ts @ rest) w = (Inl e, w2)"
      by (simp add: for_of_throw_ends)
    with h show "checkSLAStatus now w = log_line ''Error checking SLA status:'' w2"
      by (simp add: checkSLAStatus_def checkSLAStatus_try_def and_then_def)
  qed
  have 3: "for_of (handleSLAWarning now) (filter (warning_query now) (tickets w)) w = (Inr (), w1)
        \<and> filter (breach_query now) (tickets w1) = bs @ rest'
        \<and> for_of (handleSLABreach now) bs w1 = (Inl e, w3) \<longrightarrow>
      checkSLAStatus now w = log_line ''Error checking SLA status:'' w3"
  proof
    assume h: "for_of (handleSLAWarning now) (filter (warning_query now) (tickets w)) w = (Inr (), w1)
        \<and> filter (breach_query now) (tickets w1) = bs @ rest'
        \<and> for_of (handleSLABreach now) bs w1 = (Inl e, w3)"
    then have "for_of (handleSLABreach now) (bs @ rest') w1 = (Inl e, w3)"
      by (simp add: for_of_throw_ends)
    with h show "checkSLAStatus now w = log_line ''Error checking SLA status:'' w3"
      by (simp add: checkSLAStatus_def checkSLAStatus_try_def and_then_def)
  qed
  have 4: "escalateTicket now x w =
        (Inr (), (case escalateTicket_try now x w of
                    (Inl e, w') \<Rightarrow> log_line ''Error escalating ticket:'' w'
                  | (Inr u, w') \<Rightarrow> w'))"
    by (simp add: escalateTicket_def split: prod.splits sum.splits)
  have 5: "fst (handleSLABreach now x w) = Inl e \<longrightarrow> fst (notifySLABreach now x w) = Inl e"
    using escalateTicket_never_throws
    by (auto simp: handleSLABreach_def and_then_def Let_def split: if_splits prod.splits sum.splits)
  have 6: "for_of (escalateTicket now) (x # xs) w =
        for_of (escalateTicket now) xs (snd (escalateTicket now x w))"
  proof -
    obtain v where "escalateTicket now x w = (Inr (), v)"
      using escalateTicket_never_throws [of now x w] by (metis prod.collapse)
    then show ?thesis by simp
  qed
  have 7: "fst (for_of (escalateTicket now) ys v) = Inr ()" for ys v
  proof (induction ys arbitrary: v)
    case Nil
    then show ?case by simp
  next
    case (Cons y ys)
    obtain v' where "escalateTicket now y v = (Inr (), v')"
      using escalateTicket_never_throws [of now y v] by (metis prod.collapse)
    with Cons.IH show ?case by simp
  qed
  have 8: "checkEscalations now w =
        (let u1 = snd (for_of (escalateTicket now) (filter (unassigned_query now) (tickets w)) w)
         in snd (for_of (escalateTicket now)
                   (filter (stale_high_priority_query now) (tickets u1)) u1))"
  proof -
    obtain v1 where a: "for_of (escalateTicket now) (filter (unassigned_query now) (tickets w)) w
                         = (Inr (), v1)"
      using 7 [of "filter (unassigned_query now) (tickets w)" w] by (metis prod.collapse)
    obtain v2 where b: "for_of (escalateTicket now)
                          (filter (stale_high_priority_query now) (tickets v1)) v1 = (Inr (), v2)"
      using 7 [of "filter (stale_high_priority_query now) (tickets v1)" v1]
      by (metis prod.collapse)
    show ?thesis
      by (simp add: checkEscalations_def checkEscalations_try_def and_then_def a b Let_def)
  qed
  from 1 2 3 4 5 6 7 [of xs w] 8 show ?thesis by blast
qed

theorem fault_ends_the_pass_witness:
  "run_rules 1000 ''ticket_updated'' [(''notify_creator'', notify_creator_rule)]
       (sample_ticket, sample_world) =
     (Inl ValidationError,
      (sample_ticket, log_line ''Executing workflow rule: notify_creator'' sample_world))
   \<and> executeRules 1000 ([(''notify_creator'', notify_creator_rule)] @ [(''tag_technical'', tag_rule)])
         sample_ticket ''ticket_updated'' sample_world =
       (sample_ticket,
        log_line ''Error executing workflow rules for ticket''
          (log_line ''Executing workflow rule: notify_creator'' sample_world))
   \<and> filter (warning_query 253800000) (tickets scan_world) = [orphan_ticket] @ [second_ticket]
   \<and> fst (for_of (handleSLAWarning 253800000) [orphan_ticket] scan_world) = Inl TypeError
   \<and> checkSLAStatus 253800000 scan_world =
       log_line ''Error checking SLA status:''
         (snd (for_of (handleSLAWarning 253800000) [orphan_ticket] scan_world))
   \<and> for_of (handleSLAWarning 260000000) (filter (warning_query 260000000) (tickets scan_world))
         scan_world = (Inr (), scan_world)
   \<and> filter (breach_query 260000000) (tickets scan_world) = [orphan_ticket] @ [second_ticket]
   \<and> fst (for_of (handleSLABreach 260000000) [orphan_ticket] scan_world) = Inl TypeError
   \<and> checkSLAStatus 260000000 scan_world =
       log_line ''Error checking SLA status:''
         (snd (for_of (handleSLABreach 260000000) [orphan_ticket] scan_world))
   \<and> fst (handleSLABreach 260000000 orphan_ticket scan_world) = Inl TypeError
   \<and> fst (notifySLABreach 260000000 orphan_ticket scan_world) = Inl TypeError"
proof -
  let ?w2 = "snd (for_of (handleSLAWarning 253800000) [orphan_ticket] scan_world)"
  let ?w3 = "snd (for_of (handleSLABreach 260000000) [orphan_ticket] scan_world)"
  have a: "run_rules 1000 ''ticket_updated'' [(''notify_creator'', notify_creator_rule)]
       (sample_ticket, sample_world) =
     (Inl ValidationError,
      (sample_ticket, log_line ''Executing workflow rule: notify_creator'' sample_world))"
    by (simp add: notify_creator_rule_def sample_defs effect_defs workflow_defs)
  have b1: "filter (warning_query 253800000) (tickets scan_world) = [orphan_ticket] @ [second_ticket]"
    by (simp add: scan_world_def orphan_ticket_def second_ticket_def sample_defs warning_query_def)
  have b2: "fst (for_of (handleSLAWarning 253800000) [orphan_ticket] scan_world) = Inl TypeError"
    by (simp add: scan_world_def orphan_ticket_def second_ticket_def sample_defs effect_defs
        sla_service_defs)
  then have b3: "for_of (handleSLAWarning 253800000) [orphan_ticket] scan_world = (Inl TypeError, ?w2)"
    by (simp add: prod_eq_iff)
  have c1: "for_of (handleSLAWarning 260000000) (filter (warning_query 260000000) (tickets scan_world))
         scan_world = (Inr (), scan_world)"
    by (simp add: scan_world_def orphan_ticket_def second_ticket_def sample_defs warning_query_def)
  have c2: "filter (breach_query 260000000) (tickets scan_world) = [orphan_ticket] @ [second_ticket]"
    by (simp add: scan_world_def orphan_ticket_def second_ticket_def sample_defs breach_query_def)
  have c3: "fst (for_of (handleSLABreach 260000000) [orphan_ticket] scan_world) = Inl TypeError"
    by (simp add: scan_world_def orphan_ticket_def second_ticket_def sample_defs effect_defs
        sla_service_defs)
  then have c4: "for_of (handleSLABreach 260000000) [orphan_ticket] scan_world = (Inl TypeError, ?w3)"
    by (simp add: prod_eq_iff)
  from fault_ends_the_pass
         [of 1000 "''ticket_updated''" "[(''notify_creator'', notify_creator_rule)]" sample_ticket
             sample_world ValidationError sample_ticket
             "log_line ''Executing workflow rule: notify_creator'' sample_world"
             "[(''tag_technical'', tag_rule)]"] a
  have r1: "executeRules 1000 ([(''notify_creator'', notify_creator_rule)] @ [(''tag_technical'', tag_rule)])
         sample_ticket ''ticket_updated'' sample_world =
       (sample_ticket,
        log_line ''Error executing workflow rules for ticket''
          (log_line ''Executing workflow rule: notify_creator'' sample_world))"
    by blast
  from fault_ends_the_pass
         [of 253800000 _ _ _ scan_world TypeError _ _ _ "[orphan_ticket]" "[second_ticket]" ?w2] b1 b3
  have r2: "checkSLAStatus 253800000 scan_world = log_line ''Error checking SLA status:'' ?w2"
    by blast
  from fault_ends_the_pass
         [of 260000000 _ _ _ scan_world TypeError _ _ _ _ _ _ scan_world "[orphan_ticket]"
             "[second_ticket]" ?w3] c1 c2 c4
  have r3: "checkSLAStatus 260000000 scan_world = log_line ''Error checking SLA status:'' ?w3"
    by blast
  have d1: "fst (handleSLABreach 260000000 orphan_ticket scan_world) = Inl TypeError"
    by (simp add: scan_world_def orphan_ticket_def second_ticket_def sample_defs effect_defs
        sla_service_defs)
  from fault_ends_the_pass
         [where now = 260000000 and x = orphan_ticket and w = scan_world and e = TypeError] d1
  have r4: "fst (notifySLABreach 260000000 orphan_ticket scan_world) = Inl TypeError"
    by blast
  from a r1 b1 b2 r2 c1 c2 c3 r3 d1 r4 show ?thesis by blast
qed

section \<open>De-duplication of SLA notifications\<close>

lemma handleSLAWarning_skips:
  assumes "getNotifications (createdBy t) 1 w = [n]"
    and "n_type n = ''sla_warning''" and "n_ticket n = Some (tid t)"
    and "n_createdAt n > now - HOUR"
  shows "handleSLAWarning now t w = (Inr (), w)"
  using assms by (simp add: handleSLAWarning_def HOUR_def)

text \<open>
  When nothing else is sent to the creator in between, scans 10 minutes apart give one
  warning and breach scans 15 minutes apart give one breach notification. A call of
  \<open>handleSLAWarning\<close> 90 minutes after the first warning sends a second one; a whole
  scan 90 minutes later sends none, because the ticket has left the one-hour-wide warning
  window by then.
\<close>

lemma dedup_examples:
  "sent ''sla_warning'' 10 1 (checkSLAStatus 254400000 (checkSLAStatus 253800000 sample_world))
     = [253800000]
   \<and> sent ''sla_warning'' 10 1
        (snd (handleSLAWarning 259200000 sample_ticket (checkSLAStatus 253800000 sample_world)))
     = [253800000, 259200000]
   \<and> sent ''sla_warning'' 10 1 (checkSLAStatus 259200000 (checkSLAStatus 253800000 sample_world))
     = [253800000]
   \<and> sent ''sla_breach'' 10 1 (checkSLAStatus 260900000 (checkSLAStatus 260000000 sample_world))
     = [260000000]"
  by (simp add: sent_def sample_defs effect_defs sla_service_defs)

text \<open>
  C7. The monitor never records more than one sla_warning per ticket within one hour, nor
  more than one sla_breach within two hours. It does, as soon as the creator's newest
  notification is another one: with a comment notification between two scans 10 minutes
  apart the creator gets a second warning, and with one between two scans 15 minutes apart
  a second breach notification.
\<close>

theorem dedup_misses_after_other_notification:
  "sent ''sla_warning'' 10 1
     (checkSLAStatus 254400000 (comment_added 254000000 (checkSLAStatus 253800000 sample_world)))
     = [253800000, 254400000]
   \<and> sent ''sla_breach'' 10 1
       (checkSLAStatus 260900000 (comment_added 260300000 (checkSLAStatus 260000000 sample_world)))
     = [260000000, 260900000]"
  by (simp add: sent_def comment_added_def sample_defs effect_defs sla_service_defs)

section \<open>The hourly escalation pass\<close>

text \<open>
  The store is taken with its invariants: ticket ids and user ids are unique, and a title
  has at most 200 characters (the schema's \<open>maxlength\<close>), so that the notification
  message built from it passes its own validator.
\<close>

lemma notify_admins_loop:
  assumes "set as \<subseteq> set (users w)" and "length (title t) \<le> 200"
  shows "for_of (\<lambda>admin. discard (createNotification now (uid admin) ''ticket_escalated''
                        ''Ticket Escalated''
                        (''Ticket \"'' @ title t @ ''\" has been escalated due to SLA breach or inactivity.'')
                        (Some (tid t)) (Some ''urgent''))) as w
         = (Inr (), w\<lparr>notifications := notifications w @ map (escalation_notice now t) as\<rparr>)"
  using assms
proof (induction as arbitrary: w)
  case Nil
  then show ?case by simp
next
  case (Cons a as)
  let ?n = "escalation_notice now t a"
  let ?w1 = "w\<lparr>notifications := notifications w @ [?n]\<rparr>"
  have v: "valid_notification ?n"
    using Cons.prems(2)
    by (simp add: valid_notification_def escalation_notice_def notification_types_def priorities_def)
  have "a \<in> set (users w)" using Cons.prems(1) by simp
  then have f: "find (\<lambda>u. uid u = uid a) (users ?w1) \<noteq> None"
    by (auto simp: find_None_iff)
  have step: "discard (createNotification now (uid a) ''ticket_escalated'' ''Ticket Escalated''
                        (''Ticket \"'' @ title t @ ''\" has been escalated due to SLA breach or inactivity.'')
                        (Some (tid t)) (Some ''urgent'')) w = (Inr (), ?w1)"
    using v f
    by (simp add: discard_def createNotification_def Let_def escalation_notice_def)
  have sub: "set as \<subseteq> set (users ?w1)" using Cons.prems(1) by simp
  from Cons.IH [OF sub Cons.prems(2)] step show ?case by simp
qed

lemma replace_replace:
  "tid d2 = tid d1 \<Longrightarrow> replace_ticket d2 (replace_ticket d1 ts) = replace_ticket d2 ts"
  by (induction ts) (auto simp: replace_ticket_def)

lemma save_modified:
  assumes "find_ticket (tid doc) w = Some old" and "doc \<noteq> old" and "validate_modified old doc"
  shows "save now doc w =
           (Inr (doc\<lparr>version := version doc + 1, updatedAt := now\<rparr>),
            w\<lparr>tickets := replace_ticket (doc\<lparr>version := version doc + 1, updatedAt := now\<rparr>)
                            (tickets w)\<rparr>)"
  using assms by (simp add: save_def pre_save_def Let_def)

lemma escalateTicket_effect:
  assumes stored: "find_ticket (tid t) w = Some t" and len: "length (title t) \<le> 200"
  shows "escalateTicket now t w =
           (Inr (), w\<lparr>tickets := replace_ticket (escalated now t) (tickets w),
                       notifications := notifications w
                          @ map (escalation_notice now t) (find_admins w),
                       console := console w @ [''Ticket escalated successfully'']\<rparr>)"
proof -
  define t1 where "t1 = (if priority t \<noteq> ''urgent''
                then t\<lparr>priority := ''urgent'', version := version t + 1, updatedAt := now\<rparr>
                else t)"
  define w1 where "w1 = (if priority t \<noteq> ''urgent''
                then w\<lparr>tickets := replace_ticket t1 (tickets w)\<rparr> else w)"
  have id1: "tid t1 = tid t" by (simp add: t1_def)
  have first: "(if priority t \<noteq> ''urgent'' then save now (t\<lparr>priority := ''urgent''\<rparr>) w
              else (Inr t, w)) = (Inr t1, w1)"
  proof (cases "priority t = ''urgent''")
    case True
    then show ?thesis by (simp add: t1_def w1_def)
  next
    case False
    have ne: "t\<lparr>priority := ''urgent''\<rparr> \<noteq> t"
    proof
      assume "t\<lparr>priority := ''urgent''\<rparr> = t"
      then have "priority (t\<lparr>priority := ''urgent''\<rparr>) = priority t" by simp
      with False show False by simp
    qed
    have "validate_modified t (t\<lparr>priority := ''urgent''\<rparr>)"
      by (simp add: validate_modified_def priorities_def)
    with save_modified [of "t\<lparr>priority := ''urgent''\<rparr>" w t now] stored ne False
    show ?thesis by (simp add: t1_def w1_def)
  qed
  have stored1: "find_ticket (tid t1) w1 = Some t1"
  proof (cases "priority t = ''urgent''")
    case True
    with stored show ?thesis by (simp add: t1_def w1_def)
  next
    case False
    from stored have "find (\<lambda>x. tid x = tid t1) (tickets w) = Some t"
      by (simp add: find_ticket_def id1)
    from find_replace [OF this] False show ?thesis by (simp add: find_ticket_def w1_def)
  qed
  define t2 where "t2 = t1\<lparr>internalNotes := internalNotes t1 @ [escalation_note now],
                           version := version t1 + 1, updatedAt := now\<rparr>"
  define w2 where "w2 = w1\<lparr>tickets := replace_ticket t2 (tickets w1)\<rparr>"
  have ne2: "t1\<lparr>internalNotes := internalNotes t1 @ [escalation_note now]\<rparr> \<noteq> t1"
  proof
    assume "t1\<lparr>internalNotes := internalNotes t1 @ [escalation_note now]\<rparr> = t1"
    then have "internalNotes (t1\<lparr>internalNotes := internalNotes t1 @ [escalation_note now]\<rparr>)
               = internalNotes t1" by simp
    then show False by simp
  qed
  have second: "save now (t1\<lparr>internalNotes := internalNotes t1 @ [escalation_note now]\<rparr>) w1
                = (Inr t2, w2)"
    using save_modified [of "t1\<lparr>internalNotes := internalNotes t1 @ [escalation_note now]\<rparr>" w1 t1 now]
      stored1 ne2
    by (simp add: validate_modified_def t2_def w2_def)
  have t2: "t2 = escalated now t" by (simp add: t2_def t1_def escalated_def Let_def)
  have tk: "tickets w2 = replace_ticket t2 (tickets w)"
    by (simp add: w2_def w1_def replace_replace t2_def id1)
  have us: "users w2 = users w" and no: "notifications w2 = notifications w"
    and co: "console w2 = console w"
    by (simp_all add: w2_def w1_def)
  have adm: "find_admins w2 = find_admins w" by (simp add: find_admins_def us)
  have sub: "set (find_admins w2) \<subseteq> set (users w2)" by (auto simp: find_admins_def)
  have len2: "length (title t2) \<le> 200" using len by (simp add: t2_def t1_def)
  have tt: "title t2 = title t" "tid t2 = tid t" by (simp_all add: t2_def t1_def)
  have nt: "escalation_notice now t2 = escalation_notice now t"
    by (simp add: escalation_notice_def tt fun_eq_iff)
  have "escalateTicket_try now t w =
          (Inr (), log_line ''Ticket escalated successfully''
             (w2\<lparr>notifications := notifications w2 @ map (escalation_notice now t2) (find_admins w2)\<rparr>))"
    unfolding escalateTicket_try_def and_then_def
    by (simp only: first second notify_admins_loop [OF sub len2] prod.case sum.case)
  moreover have "log_line ''Ticket escalated successfully''
             (w2\<lparr>notifications := notifications w2 @ map (escalation_notice now t2) (find_admins w2)\<rparr>)
       = w\<lparr>tickets := replace_ticket (escalated now t) (tickets w),
                       notifications := notifications w
                          @ map (escalation_notice now t) (find_admins w),
                       console := console w @ [''Ticket escalated successfully'']\<rparr>"
    by (intro world.equality) (simp_all add: log_line_def tk us no co adm nt t2 [symmetric])
  ultimately show ?thesis by (simp add: escalateTicket_def)
qed

lemma escalated_keeps: "tid (escalated now t) = tid t \<and> title (escalated now t) = title t"
  by (simp add: escalated_def Let_def)

lemma find_distinct:
  "distinct (map tid ts) \<Longrightarrow> x \<in> set ts \<Longrightarrow> find (\<lambda>y. tid y = tid x) ts = Some x"
  by (induction ts) (auto simp: image_iff)

lemma same_id_same_ticket:
  "distinct (map tid ts) \<Longrightarrow> x \<in> set ts \<Longrightarrow> y \<in> set ts \<Longrightarrow> tid y = tid x \<Longrightarrow> y = x"
  by (meson distinct_map inj_on_def)

lemma replace_distinct:
  assumes "distinct (map tid ts)" and "x \<in> set ts" and "tid d = tid x"
  shows "replace_ticket d ts = map (\<lambda>y. if y = x then d else y) ts"
  unfolding replace_ticket_def
proof (rule map_cong [OF refl])
  fix y assume "y \<in> set ts"
  with assms same_id_same_ticket [of ts x y]
  show "(if tid y = tid d then d else y) = (if y = x then d else y)" by auto
qed

lemma escalate_loop:
  assumes "distinct (map tid (tickets w))"
      and "set xs \<subseteq> set (tickets w)" and "distinct (map tid xs)"
      and "\<forall>x\<in>set (tickets w). length (title x) \<le> 200"
  shows "for_of (escalateTicket now) xs w =
     (Inr (), w\<lparr>tickets := map (\<lambda>y. if y \<in> set xs then escalated now y else y) (tickets w),
                 notifications := notifications w
                    @ concat (map (\<lambda>x. map (escalation_notice now x) (find_admins w)) xs),
                 console := console w @ replicate (length xs) ''Ticket escalated successfully''\<rparr>)"
  using assms
proof (induction xs arbitrary: w)
  case Nil
  then show ?case by simp
next
  case (Cons x xs)
  let ?ts = "tickets w"
  let ?g = "\<lambda>y. if y = x then escalated now x else y"
  define w1 where "w1 = w\<lparr>tickets := map ?g ?ts,
                       notifications := notifications w
                          @ map (escalation_notice now x) (find_admins w),
                       console := console w @ [''Ticket escalated successfully'']\<rparr>"
  have xin: "x \<in> set ?ts" using Cons.prems(2) by simp
  have stored: "find_ticket (tid x) w = Some x"
    using find_distinct [OF Cons.prems(1) xin] by (simp add: find_ticket_def)
  have len: "length (title x) \<le> 200" using Cons.prems(4) xin by blast
  have rep: "replace_ticket (escalated now x) ?ts = map ?g ?ts"
    using replace_distinct [OF Cons.prems(1) xin] by (simp add: escalated_keeps)
  have step: "escalateTicket now x w = (Inr (), w1)"
    using escalateTicket_effect [OF stored len, of now] by (simp add: rep w1_def)
  have ids: "map tid (map ?g ?ts) = map tid ?ts"
    by (simp add: escalated_keeps)
  have d1: "distinct (map tid (tickets w1))" using Cons.prems(1) by (simp add: w1_def ids del: map_map)
  have notx: "\<And>y. y \<in> set xs \<Longrightarrow> tid y \<noteq> tid x" using Cons.prems(3) by (auto simp: image_iff)
  have sub1: "set xs \<subseteq> set (tickets w1)"
  proof
    fix y assume y: "y \<in> set xs"
    then have "y \<in> set ?ts" using Cons.prems(2) by auto
    moreover have "y \<noteq> x" using notx [OF y] by auto
    ultimately have "?g y \<in> set (map ?g ?ts)" and "?g y = y" by auto
    then show "y \<in> set (tickets w1)" by (simp add: w1_def)
  qed
  have d2: "distinct (map tid xs)" using Cons.prems(3) by simp
  have t1: "\<forall>y\<in>set (tickets w1). length (title y) \<le> 200"
    using Cons.prems(4) xin by (auto simp: w1_def escalated_keeps)
  have adm: "find_admins w1 = find_admins w" by (simp add: find_admins_def w1_def)
  have comp: "map (\<lambda>y. if y \<in> set xs then escalated now y else y) (map ?g ?ts)
            = map (\<lambda>y. if y \<in> set (x # xs) then escalated now y else y) ?ts"
  proof -
    have "escalated now x \<notin> set xs"
    proof
      assume "escalated now x \<in> set xs"
      from notx [OF this] show False by (simp add: escalated_keeps)
    qed
    then show ?thesis by auto
  qed
  have "for_of (escalateTicket now) (x # xs) w = for_of (escalateTicket now) xs w1"
    using step by simp
  also have "\<dots> = (Inr (), w1\<lparr>tickets := map (\<lambda>y. if y \<in> set xs then escalated now y else y) (tickets w1),
                 notifications := notifications w1
                    @ concat (map (\<lambda>x. map (escalation_notice now x) (find_admins w1)) xs),
                 console := console w1 @ replicate (length xs) ''Ticket escalated successfully''\<rparr>)"
    by (rule Cons.IH [OF d1 sub1 d2 t1])
  also have "w1\<lparr>tickets := map (\<lambda>y. if y \<in> set xs then escalated now y else y) (tickets w1),
                 notifications := notifications w1
                    @ concat (map (\<lambda>x. map (escalation_notice now x) (find_admins w1)) xs),
                 console := console w1 @ replicate (length xs) ''Ticket escalated successfully''\<rparr>
     = w\<lparr>tickets := map (\<lambda>y. if y \<in> set (x # xs) then escalated now y else y) (tickets w),
                 notifications := notifications w
                    @ concat (map (\<lambda>x. map (escalation_notice now x) (find_admins w)) (x # xs)),
                 console := console w @ replicate (length (x # xs)) ''Ticket escalated successfully''\<rparr>"
    unfolding adm
    by (intro world.equality) (simp_all add: w1_def comp del: map_map set_simps)
  finally show ?case .
qed

lemma escalated_not_stale: "\<not> stale_high_priority_query now (escalated now y)"
  by (simp add: stale_high_priority_query_def escalated_def Let_def)

lemma stale_after_first_loop:
  "filter (stale_high_priority_query now)
     (map (\<lambda>y. if unassigned_query now y then escalated now y else y) ts)
   = filter (\<lambda>y. \<not> unassigned_query now y \<and> stale_high_priority_query now y) ts"
  by (induction ts) (simp_all add: escalated_not_stale)

text \<open>
  The whole pass in closed form: every ticket that meets one of the two queries is
  escalated once (a ticket escalated by the first loop has just been updated, so the
  second query no longer finds it), every other ticket is left as it is.
\<close>

lemma checkEscalations_effect:
  assumes dist: "distinct (map tid (tickets w))"
      and len: "\<forall>x\<in>set (tickets w). length (title x) \<le> 200"
  shows "checkEscalations now w =
     w\<lparr>tickets := map (\<lambda>y. if unassigned_query now y \<or> stale_high_priority_query now y
                            then escalated now y else y) (tickets w),
       notifications := notifications w
          @ concat (map (\<lambda>x. map (escalation_notice now x) (find_admins w))
                      (filter (unassigned_query now) (tickets w)
                       @ filter (\<lambda>y. \<not> unassigned_query now y \<and> stale_high_priority_query now y)
                           (tickets w))),
       console := console w
          @ replicate (length (filter (unassigned_query now) (tickets w)
                       @ filter (\<lambda>y. \<not> unassigned_query now y \<and> stale_high_priority_query now y)
                           (tickets w)))
              ''Ticket escalated successfully''\<rparr>"
proof -
  let ?ts = "tickets w"
  let ?U = "unassigned_query now" and ?S = "stale_high_priority_query now"
  let ?g = "\<lambda>y. if ?U y then escalated now y else y"
  let ?xs1 = "filter ?U ?ts"
  let ?xs2 = "filter (\<lambda>y. \<not> ?U y \<and> ?S y) ?ts"
  let ?N = "\<lambda>x. map (escalation_notice now x) (find_admins w)"
  define w1 where "w1 = w\<lparr>tickets := map ?g ?ts,
                 notifications := notifications w @ concat (map ?N ?xs1),
                 console := console w @ replicate (length ?xs1) ''Ticket escalated successfully''\<rparr>"
  have g1: "map (\<lambda>y. if y \<in> set ?xs1 then escalated now y else y) ?ts = map ?g ?ts"
    by (rule map_cong [OF refl]) simp
  have loop1: "for_of (escalateTicket now) ?xs1 w = (Inr (), w1)"
    using escalate_loop [OF dist _ _ len, of ?xs1 now] dist
    by (simp add: distinct_map_filter g1 w1_def)
  have ids1: "map tid (tickets w1) = map tid ?ts"
    by (simp add: w1_def escalated_keeps)
  have dist1: "distinct (map tid (tickets w1))" using dist by (simp only: ids1)
  have len1: "\<forall>x\<in>set (tickets w1). length (title x) \<le> 200"
    using len by (auto simp: w1_def escalated_keeps)
  have xs2: "filter ?S (tickets w1) = ?xs2"
    by (simp add: w1_def stale_after_first_loop)
  have adm: "find_admins w1 = find_admins w" by (simp add: find_admins_def w1_def)
  have sub2: "set (filter ?S (tickets w1)) \<subseteq> set (tickets w1)" by simp
  have d2: "distinct (map tid (filter ?S (tickets w1)))"
    using dist1 by (rule distinct_map_filter)
  have g2: "map (\<lambda>y. if y \<in> set ?xs2 then escalated now y else y) (map ?g ?ts)
          = map (\<lambda>y. if ?U y \<or> ?S y then escalated now y else y) ?ts"
  proof -
    have "(if ?g y \<in> set ?xs2 then escalated now (?g y) else ?g y)
          = (if ?U y \<or> ?S y then escalated now y else y)" if y: "y \<in> set ?ts" for y
    proof (cases "?U y")
      case True
      have n: "escalated now y \<notin> set ?xs2" by (simp add: escalated_not_stale)
      show ?thesis by (simp only: True n if_True if_False simp_thms)
    next
      case False
      with y show ?thesis by auto
    qed
    then show ?thesis by (simp add: comp_def cong: map_cong)
  qed
  have loop2: "for_of (escalateTicket now) (filter ?S (tickets w1)) w1 =
     (Inr (), w1\<lparr>tickets := map (\<lambda>y. if y \<in> set (filter ?S (tickets w1)) then escalated now y else y)
                             (tickets w1),
                 notifications := notifications w1
                    @ concat (map (\<lambda>x. map (escalation_notice now x) (find_admins w1))
                                (filter ?S (tickets w1))),
                 console := console w1 @ replicate (length (filter ?S (tickets w1)))
                                            ''Ticket escalated successfully''\<rparr>)"
    by (rule escalate_loop [OF dist1 sub2 d2 len1])
  have final: "w1\<lparr>tickets := map (\<lambda>y. if y \<in> set (filter ?S (tickets w1)) then escalated now y else y)
                             (tickets w1),
                 notifications := notifications w1
                    @ concat (map (\<lambda>x. map (escalation_notice now x) (find_admins w1))
                                (filter ?S (tickets w1))),
                 console := console w1 @ replicate (length (filter ?S (tickets w1)))
                                            ''Ticket escalated successfully''\<rparr>
     = w\<lparr>tickets := map (\<lambda>y. if ?U y \<or> ?S y then escalated now y else y) ?ts,
          notifications := notifications w @ concat (map ?N (?xs1 @ ?xs2)),
          console := console w @ replicate (length (?xs1 @ ?xs2)) ''Ticket escalated successfully''\<rparr>"
    unfolding xs2 adm
  proof (intro world.equality)
    show "tickets (w1\<lparr>tickets := map (\<lambda>y. if y \<in> set ?xs2 then escalated now y else y) (tickets w1),
                 notifications := notifications w1 @ concat (map ?N ?xs2),
                 console := console w1 @ replicate (length ?xs2) ''Ticket escalated successfully''\<rparr>)
        = tickets (w\<lparr>tickets := map (\<lambda>y. if ?U y \<or> ?S y then escalated now y else y) ?ts,
          notifications := notifications w @ concat (map ?N (?xs1 @ ?xs2)),
          console := console w @ replicate (length (?xs1 @ ?xs2)) ''Ticket escalated successfully''\<rparr>)"
      using g2 by (simp add: w1_def del: map_map)
  qed (simp_all add: w1_def replicate_add)
  show ?thesis
    unfolding checkEscalations_def checkEscalations_try_def and_then_def
    by (simp only: loop1 loop2 final prod.case sum.case)
qed

lemma not_qualifying_untouched:
  assumes "distinct (map tid (tickets w))"
      and "\<forall>x\<in>set (tickets w). length (title x) \<le> 200"
      and "t \<in> set (tickets w)"
      and "\<not> unassigned_query now t" and "\<not> stale_high_priority_query now t"
  shows "find_ticket (tid t) (checkEscalations now w) = Some t"
proof -
  let ?h = "\<lambda>y. if unassigned_query now y \<or> stale_high_priority_query now y
                 then escalated now y else y"
  have ids: "map tid (map ?h (tickets w)) = map tid (tickets w)"
    by (simp add: escalated_keeps)
  have "distinct (map tid (map ?h (tickets w)))" using assms(1) by (simp only: ids)
  moreover have "?h t \<in> set (map ?h (tickets w))"
    unfolding set_map using assms(3) by (intro image_eqI [where x = t]) simp_all
  ultimately have "find (\<lambda>y. tid y = tid (?h t)) (map ?h (tickets w)) = Some (?h t)"
    by (rule find_distinct)
  moreover have "?h t = t" using assms(4,5) by simp
  ultimately show ?thesis
    by (simp add: find_ticket_def checkEscalations_effect [OF assms(1,2)])
qed

lemma one_admin:
  "distinct (map uid as) \<Longrightarrow> a \<in> set as \<Longrightarrow> length (filter (\<lambda>b. uid b = uid a) as) = 1"
proof (induction as)
  case Nil
  then show ?case by simp
next
  case (Cons b as)
  show ?case
  proof (cases "uid b = uid a")
    case True
    with Cons.prems have "\<forall>c\<in>set as. uid c \<noteq> uid a" by (auto simp: image_iff)
    then have "filter (\<lambda>c. uid c = uid a) as = []" by (simp add: filter_empty_conv)
    with True show ?thesis by simp
  next
    case False
    with Cons show ?thesis by auto
  qed
qed

lemma notice_fields:
  "n_type (escalation_notice now x b) = ''ticket_escalated''"
  "n_user (escalation_notice now x b) = uid b"
  "n_ticket (escalation_notice now x b) = Some (tid x)"
  by (simp_all add: escalation_notice_def)

lemma notices_of_ticket:
  "filter (\<lambda>n. n_type n = ''ticket_escalated'' \<and> n_user n = uid a \<and> n_ticket n = Some i)
     (map (escalation_notice now x) as)
   = (if tid x = i then map (escalation_notice now x) (filter (\<lambda>b. uid b = uid a) as) else [])"
  by (induction as) (simp_all add: notice_fields)

lemma count_notices:
  assumes "distinct (map tid zs)" and "t \<in> set zs"
      and "distinct (map uid as)" and "a \<in> set as"
  shows "length (filter (\<lambda>n. n_type n = ''ticket_escalated'' \<and> n_user n = uid a
                           \<and> n_ticket n = Some (tid t))
                   (concat (map (\<lambda>x. map (escalation_notice now x) as) zs))) = 1"
  using assms(1,2)
proof (induction zs)
  case Nil
  then show ?case by simp
next
  case (Cons x zs)
  show ?case
  proof (cases "tid x = tid t")
    case True
    with Cons.prems have "\<forall>z\<in>set zs. tid z \<noteq> tid t" by (auto simp: image_iff)
    then have "filter (\<lambda>n. n_type n = ''ticket_escalated'' \<and> n_user n = uid a
                           \<and> n_ticket n = Some (tid t))
                 (concat (map (\<lambda>x. map (escalation_notice now x) as) zs)) = []"
      by (induction zs) (simp_all add: notices_of_ticket)
    with True one_admin [OF assms(3,4)] show ?thesis
      by (simp add: notices_of_ticket)
  next
    case False
    with Cons.prems have "t \<in> set zs" and "distinct (map tid zs)" by auto
    with Cons.IH False show ?thesis by (simp add: notices_of_ticket)
  qed
qed

text \<open>
  C8. On an escalation pass, every ticket that is open, unassigned and created more than
  24 hours ago, or open or in progress with priority high or urgent and not updated for
  more than 4 hours, is escalated: its priority is urgent afterwards, written only if it
  was not urgent before (one save instead of two, seen in the version), exactly one
  system note with author null is appended, and every active admin gets exactly one
  ticket_escalated notification about it.
\<close>

theorem escalation_pass:
  assumes dist: "distinct (map tid (tickets w))"
      and users: "distinct (map uid (users w))"
      and len: "\<forall>x\<in>set (tickets w). length (title x) \<le> 200"
      and t: "t \<in> set (tickets w)"
      and q: "unassigned_query now t \<or> stale_high_priority_query now t"
  shows "\<exists>t'. find_ticket (tid t) (checkEscalations now w) = Some t'
           \<and> priority t' = ''urgent''
           \<and> version t' = version t + (if priority t = ''urgent'' then 1 else 2)
           \<and> internalNotes t' = internalNotes t @ [escalation_note now]
           \<and> addedBy (escalation_note now) = None
           \<and> (\<forall>a\<in>set (find_admins w).
                 length (filter (\<lambda>n. n_type n = ''ticket_escalated'' \<and> n_user n = uid a
                                     \<and> n_ticket n = Some (tid t))
                           (drop (length (notifications w))
                                 (notifications (checkEscalations now w)))) = 1)"
proof -
  let ?U = "unassigned_query now" and ?S = "stale_high_priority_query now"
  let ?h = "\<lambda>y. if ?U y \<or> ?S y then escalated now y else y"
  let ?zs = "filter ?U (tickets w) @ filter (\<lambda>y. \<not> ?U y \<and> ?S y) (tickets w)"
  let ?w' = "checkEscalations now w"
  note eff = checkEscalations_effect [OF dist len, of now]
  have tk: "tickets ?w' = map ?h (tickets w)" by (simp add: eff)
  have nt: "notifications ?w' = notifications w
              @ concat (map (\<lambda>x. map (escalation_notice now x) (find_admins w)) ?zs)"
    by (simp add: eff)
  have ids: "map tid (map ?h (tickets w)) = map tid (tickets w)"
    by (simp add: escalated_keeps)
  have "distinct (map tid (map ?h (tickets w)))" using dist by (simp only: ids)
  moreover have "?h t \<in> set (map ?h (tickets w))"
    unfolding set_map using t by (intro image_eqI [where x = t]) simp_all
  ultimately have "find (\<lambda>y. tid y = tid (?h t)) (map ?h (tickets w)) = Some (?h t)"
    by (rule find_distinct)
  moreover have "?h t = escalated now t" using q by simp
  ultimately have found: "find_ticket (tid t) ?w' = Some (escalated now t)"
    by (simp add: find_ticket_def tk escalated_keeps)
  have zs_dist: "distinct (map tid ?zs)"
  proof -
    have "distinct ?zs" using dist by (auto simp: distinct_map)
    moreover have "inj_on tid (set ?zs)"
      using dist by (auto simp: distinct_map intro: inj_on_subset)
    ultimately show ?thesis unfolding distinct_map by (rule conjI)
  qed
  have zs_t: "t \<in> set ?zs" using t q by auto
  have adm: "distinct (map uid (find_admins w))"
    using users by (simp add: find_admins_def distinct_map_filter)
  have count: "\<forall>a\<in>set (find_admins w).
                 length (filter (\<lambda>n. n_type n = ''ticket_escalated'' \<and> n_user n = uid a
                                     \<and> n_ticket n = Some (tid t))
                           (drop (length (notifications w)) (notifications ?w'))) = 1"
  proof
    fix a assume "a \<in> set (find_admins w)"
    from count_notices [OF zs_dist zs_t adm this, of now]
    show "length (filter (\<lambda>n. n_type n = ''ticket_escalated'' \<and> n_user n = uid a
                                     \<and> n_ticket n = Some (tid t))
                           (drop (length (notifications w)) (notifications ?w'))) = 1"
      by (simp add: nt)
  qed
  have "priority (escalated now t) = ''urgent''"
    and "version (escalated now t) = version t + (if priority t = ''urgent'' then 1 else 2)"
    and "internalNotes (escalated now t) = internalNotes t @ [escalation_note now]"
    and "addedBy (escalation_note now) = None"
    by (simp_all add: escalated_def escalation_note_def Let_def)
  with found count show ?thesis by blast
qed

theorem escalation_pass_witness:
  "unassigned_query 90000000 sample_ticket
   \<and> (\<exists>t'. find_ticket 1 (checkEscalations 90000000 sample_world) = Some t'
           \<and> priority sample_ticket = ''medium''
           \<and> priority t' = ''urgent''
           \<and> version t' = 2
           \<and> internalNotes t' = [escalation_note 90000000]
           \<and> length (filter (\<lambda>n. n_type n = ''ticket_escalated'' \<and> n_user n = 30
                                     \<and> n_ticket n = Some 1)
                   (notifications (checkEscalations 90000000 sample_world))) = 1)"
proof -
  have dist: "distinct (map tid (tickets sample_world))" by (simp add: sample_defs)
  have users: "distinct (map uid (users sample_world))" by (simp add: sample_defs)
  have len: "\<forall>x\<in>set (tickets sample_world). length (title x) \<le> 200"
    by (simp add: sample_defs)
  have t: "sample_ticket \<in> set (tickets sample_world)" by (simp add: sample_world_def)
  have u: "unassigned_query 90000000 sample_ticket"
    by (simp add: unassigned_query_def sample_defs)
  then have q: "unassigned_query 90000000 sample_ticket
                \<or> stale_high_priority_query 90000000 sample_ticket" by simp
  have a: "admin \<in> set (find_admins sample_world)" by (simp add: find_admins_def sample_defs)
  have facts: "tid sample_ticket = 1" "version sample_ticket = 0" "internalNotes sample_ticket = []"
    "priority sample_ticket = ''medium''" "uid admin = 30" "notifications sample_world = []"
    by (simp_all add: sample_defs)
  from escalation_pass [OF dist users len t q] a u show ?thesis
    by (auto simp: facts)
qed

end
